theory Spec2Isabelle
  imports Main "HOL-Library.Word"
begin

section \<open>Dragon Shell: the command-execution engine of \<open>main.c\<close>\<close>

subsection \<open>Argument vectors\<close>

text \<open>
  An argument vector is the \<open>char **\<close> array that \<open>split_line\<close> fills: one slot per
  token and a closing \<open>NULL\<close>. A slot is \<open>Some t\<close> for a pointer to the token \<open>t\<close> and
  \<open>None\<close> for \<open>NULL\<close>. The list is the whole initialised array, so a read at an index
  that is not below its length is a read past the vector's end.
\<close>

type_synonym argv = "string option list"

definition terminated :: "argv \<Rightarrow> bool" where
  "terminated a = (None \<in> set a)"

text \<open>What a consumer that stops at the first \<open>NULL\<close> (such as \<open>execvp\<close>) sees.\<close>

definition visible :: "argv \<Rightarrow> string list" where
  "visible a = map the (takeWhile (\<lambda>x. x \<noteq> None) a)"

subsection \<open>The tokenizer\<close>

definition LSH_TOK_BUFSIZE :: nat where
  "LSH_TOK_BUFSIZE = 64"

definition LSH_TOK_DELIM :: "char list" where
  "LSH_TOK_DELIM = [CHR '' '', CHR 0x09, CHR 0x0D, CHR 0x0A, CHR 0x07]"

definition EXIT_SUCCESS :: int where
  "EXIT_SUCCESS = 0"

definition EXIT_FAILURE :: int where
  "EXIT_FAILURE = 1"

text \<open>
  A buffer is a list of bytes; \<open>strtok\<close>, \<open>strstr\<close> and \<open>strcmp\<close> see of it the C
  string that ends before its first NUL byte.
\<close>

definition c_string :: "string \<Rightarrow> string" where
  "c_string buf = takeWhile (\<lambda>c. c \<noteq> CHR 0x00) buf"

text \<open>
  The successive results of \<open>strtok\<close> on a C string: the maximal runs of characters
  that are not delimiters. The second argument is the token being read.
\<close>

fun strtok_all :: "string \<Rightarrow> string \<Rightarrow> string list" where
  "strtok_all [] cur = (if cur = [] then [] else [cur])"
| "strtok_all (c # cs) cur =
     (if c \<in> set LSH_TOK_DELIM
      then (if cur = [] then strtok_all cs [] else cur # strtok_all cs [])
      else strtok_all cs (cur @ [c]))"

text \<open>
  The \<open>while\<close> loop of \<open>split_line\<close>. \<open>alloc n\<close> tells whether the allocator grants
  an array of \<open>n\<close> pointers; \<open>None\<close> is the branch that prints
  \<open>lsh: allocation error\<close> and calls \<open>exit(EXIT_FAILURE)\<close>.
\<close>

fun split_loop :: "(nat \<Rightarrow> bool) \<Rightarrow> string list \<Rightarrow> nat \<Rightarrow> argv \<Rightarrow> argv option" where
  "split_loop alloc [] bufsize tokens = Some (tokens @ [None])"
| "split_loop alloc (token # rest) bufsize tokens =
     (let tokens1 = tokens @ [Some token];
          position = length tokens1
      in if position \<ge> bufsize
         then (if alloc (bufsize + LSH_TOK_BUFSIZE)
               then split_loop alloc rest (bufsize + LSH_TOK_BUFSIZE) tokens1
               else None)
         else split_loop alloc rest bufsize tokens1)"

definition split_line :: "(nat \<Rightarrow> bool) \<Rightarrow> string \<Rightarrow> argv option" where
  "split_line alloc line =
     (if \<not> alloc LSH_TOK_BUFSIZE then None
      else split_loop alloc (strtok_all (c_string line) []) LSH_TOK_BUFSIZE [])"

subsection \<open>The background marker\<close>

text \<open>
  \<open>is_background_process\<close>: the loop reads \<open>args[i]\<close> until it meets \<open>NULL\<close>. The
  result is \<open>None\<close> when the loop would read past the array, else the returned flag
  with the array as the function leaves it.
\<close>

function bg_scan :: "argv \<Rightarrow> nat \<Rightarrow> (int \<times> argv) option" where
  "bg_scan args i =
     (if length args \<le> i then None
      else case args ! i of
             None \<Rightarrow> Some (0, args)
           | Some t \<Rightarrow>
               if t = ''&'' then Some (1, args[i := None])
               else bg_scan args (Suc i))"
  by pat_completeness auto
termination
  by (relation "measure (\<lambda>(args, i). length args - i)") auto

definition is_background_process :: "argv \<Rightarrow> (int \<times> argv) option" where
  "is_background_process args = bg_scan args 0"

subsection \<open>Descriptors, system calls and the operating system\<close>

datatype oflag = O_RDONLY | O_WRONLY | O_CREAT | O_TRUNC

datatype fobj = Terminal | OpenFile string "oflag list" | PipeRead nat | PipeWrite nat

type_synonym fdtable = "int \<Rightarrow> fobj option"

datatype signal = SIGINT | SIGTSTP | SIGTERM | SIGSEGV

text \<open>The calls a process makes, in the order it makes them, with their arguments.\<close>

datatype syscall =
    Open "string option" "oflag list" "nat option" int
  | Dup2 int int
  | Close int
  | Perror string
  | Fprintf_stderr string
  | Printf string "int list"
  | Fflush
  | Execvp "string option" "string list"
  | Exit int
  | Waitpid int
  | Getrusage
  | Kill int signal
  | Chdir string
  | Getcwd
  | Fork int
  | Pipe_call "(int \<times> int) option"

definition STDIN_FILENO :: int where
  "STDIN_FILENO = 0"

definition STDOUT_FILENO :: int where
  "STDOUT_FILENO = 1"

text \<open>
  What the operating system answers: the descriptor \<open>open\<close> returns for a pathname
  (\<open>-1\<close> on failure) and whether \<open>execvp\<close> can replace the image.
\<close>

record os =
  open_result :: "string \<Rightarrow> oflag list \<Rightarrow> int"
  exec_ok :: "string \<Rightarrow> string list \<Rightarrow> bool"

text \<open>\<open>open(2)\<close> on a null pathname fails (\<open>EFAULT\<close>) and returns \<open>-1\<close>.\<close>

definition sys_open :: "os \<Rightarrow> string option \<Rightarrow> oflag list \<Rightarrow> int" where
  "sys_open sy path flags =
     (case path of None \<Rightarrow> - 1 | Some name \<Rightarrow> open_result sy name flags)"

text \<open>A process: its argument array, its descriptor table, the calls made so far.\<close>

record proc =
  p_args :: argv
  p_fds :: fdtable
  p_trace :: "syscall list"

definition emit :: "syscall \<Rightarrow> proc \<Rightarrow> proc" where
  "emit c p = p\<lparr>p_trace := p_trace p @ [c]\<rparr>"

definition do_open :: "os \<Rightarrow> string option \<Rightarrow> oflag list \<Rightarrow> nat option \<Rightarrow> proc \<Rightarrow> int \<times> proc" where
  "do_open sy path flags mode p =
     (let fd = sys_open sy path flags;
          p1 = emit (Open path flags mode fd) p
      in (fd, if fd = - 1 then p1
              else p1\<lparr>p_fds := (p_fds p1)(fd \<mapsto> OpenFile (the path) flags)\<rparr>))"

definition do_dup2 :: "int \<Rightarrow> int \<Rightarrow> proc \<Rightarrow> proc" where
  "do_dup2 oldfd newfd p =
     (let p1 = emit (Dup2 oldfd newfd) p
      in case p_fds p oldfd of
           None \<Rightarrow> p1
         | Some ob \<Rightarrow> p1\<lparr>p_fds := (p_fds p1)(newfd \<mapsto> ob)\<rparr>)"

definition do_close :: "int \<Rightarrow> proc \<Rightarrow> proc" where
  "do_close fd p = (emit (Close fd) p)\<lparr>p_fds := (p_fds p)(fd := None)\<rparr>"

text \<open>
  How a child ends: its image is replaced by a program with an argument list, or it
  exits with a status, or a signal kills it, or it reads past the end of its argument
  array.
\<close>

datatype ending = Replaced string "string list" | Exited int | Killed signal | ReadPastEnd

definition do_exit :: "int \<Rightarrow> proc \<Rightarrow> ending \<times> proc" where
  "do_exit st p = (Exited st, emit (Exit st) p)"

subsection \<open>The redirection resolver\<close>

text \<open>
  The two \<open>for\<close> loops in the child branch of \<open>execute_command\<close> differ only in the
  operator they look for and in the flags and mode they pass to \<open>open\<close>. The loop
  reads \<open>args[i]\<close>; on the operator it reads \<open>args[i + 1]\<close>, opens it, and on success
  stores \<open>NULL\<close> at \<open>args[i]\<close> and leaves the loop. \<open>Inl\<close> is the end of the process,
  \<open>Inr\<close> carries the descriptor variable (\<open>-1\<close> when no operator was met).
\<close>

function scan_redirect ::
  "string \<Rightarrow> oflag list \<Rightarrow> nat option \<Rightarrow> os \<Rightarrow> proc \<Rightarrow> nat \<Rightarrow> (ending \<times> proc) + (int \<times> proc)" where
  "scan_redirect opr flags mode sy p i =
     (if length (p_args p) \<le> i then Inl (ReadPastEnd, p)
      else case p_args p ! i of
             None \<Rightarrow> Inr (- 1, p)
           | Some t \<Rightarrow>
               if t = opr then
                 (if length (p_args p) \<le> Suc i then Inl (ReadPastEnd, p)
                  else case do_open sy (p_args p ! Suc i) flags mode p of
                         (fd, p1) \<Rightarrow>
                           if fd = - 1
                           then Inl (do_exit EXIT_FAILURE (emit (Perror ''dragonshell'') p1))
                           else Inr (fd, p1\<lparr>p_args := (p_args p1)[i := None]\<rparr>))
               else scan_redirect opr flags mode sy p (Suc i))"
  by pat_completeness auto
termination
  by (relation "measure (\<lambda>(opr, flags, mode, sy, p, i). length (p_args p) - i)") auto

text \<open>The octal mode \<open>0644\<close>.\<close>

definition mode_0644 :: nat where
  "mode_0644 = 6 * 8 ^ 2 + 4 * 8 + 4"

definition output_scan :: "os \<Rightarrow> proc \<Rightarrow> (ending \<times> proc) + (int \<times> proc)" where
  "output_scan sy p = scan_redirect ''>'' [O_WRONLY, O_CREAT, O_TRUNC] (Some mode_0644) sy p 0"

definition input_scan :: "os \<Rightarrow> proc \<Rightarrow> (ending \<times> proc) + (int \<times> proc)" where
  "input_scan sy p = scan_redirect ''<'' [O_RDONLY] None sy p 0"

text \<open>\<open>if (fd != -1) { dup2(fd, target); close(fd); }\<close>\<close>

definition bind_fd :: "int \<Rightarrow> int \<Rightarrow> proc \<Rightarrow> proc" where
  "bind_fd fd target p = (if fd \<noteq> - 1 then do_close fd (do_dup2 fd target p) else p)"

text \<open>
  \<open>execvp(args[0], args)\<close> and the two statements after it. \<open>execvp\<close> walks the array
  up to its first \<open>NULL\<close>. It reads the first character of the file name before
  anything else, so on a null file name the process is killed by \<open>SIGSEGV\<close> inside
  the call: nothing is reported and \<open>exit\<close> is not reached.
\<close>

definition do_execvp :: "os \<Rightarrow> proc \<Rightarrow> ending \<times> proc" where
  "do_execvp sy p =
     (if \<not> terminated (p_args p) then (ReadPastEnd, p)
      else let file = hd (p_args p);
               av = visible (p_args p);
               p1 = emit (Execvp file av) p
           in case file of
                None \<Rightarrow> (Killed SIGSEGV, p1)
              | Some name \<Rightarrow>
                  if exec_ok sy name av then (Replaced name av, p1)
                  else do_exit EXIT_FAILURE (emit (Perror ''dragonshell'') p1))"

text \<open>The child branch (\<open>pid == 0\<close>) of \<open>execute_command\<close>.\<close>

definition execute_command_child :: "os \<Rightarrow> argv \<Rightarrow> fdtable \<Rightarrow> ending \<times> proc" where
  "execute_command_child sy args fds =
     (case output_scan sy \<lparr>p_args = args, p_fds = fds, p_trace = []\<rparr> of
        Inl e \<Rightarrow> e
      | Inr (output_fd, p1) \<Rightarrow>
          (case input_scan sy (bind_fd output_fd STDOUT_FILENO p1) of
             Inl e \<Rightarrow> e
           | Inr (input_fd, p2) \<Rightarrow> do_execvp sy (bind_fd input_fd STDIN_FILENO p2)))"

text \<open>
  Two operating systems in which every file opens on descriptor 3: in the first every
  program runs, in the second none can be executed.
\<close>

definition os_ok :: os where
  "os_ok = \<lparr>open_result = (\<lambda>name flags. 3), exec_ok = (\<lambda>name av. True)\<rparr>"

definition os_no_program :: os where
  "os_no_program = \<lparr>open_result = (\<lambda>name flags. 3), exec_ok = (\<lambda>name av. False)\<rparr>"

text \<open>The descriptor table of a process started on a terminal.\<close>

definition std_fds :: fdtable where
  "std_fds = (\<lambda>fd. if fd = 0 \<or> fd = 1 \<or> fd = 2 then Some Terminal else None)"

subsection \<open>The interpreter's state\<close>

definition MAX_BG_PROC :: nat where
  "MAX_BG_PROC = 1"

text \<open>
  The globals of \<open>main.c\<close> (\<open>long\<close> is 64 bits wide), together with what the operating
  system keeps for the interpreter process: its working directory, its descriptor
  table, and the calls it has made.
\<close>

record session =
  bg_processes :: "int list"
  bg_count :: int
  total_user_time :: "64 word"
  total_sys_time :: "64 word"
  shell_pid :: int
  child_pid :: int
  s_cwd :: string
  s_fds :: fdtable
  s_trace :: "syscall list"

text \<open>The two \<open>tv_sec\<close> fields that the code reads from \<open>struct rusage\<close>.\<close>

record rusage =
  ru_utime_sec :: "64 word"
  ru_stime_sec :: "64 word"

definition s_emit :: "syscall \<Rightarrow> session \<Rightarrow> session" where
  "s_emit c s = s\<lparr>s_trace := s_trace s @ [c]\<rparr>"

text \<open>The globals as their initialisers set them, at the start of \<open>main\<close>.\<close>

definition initial_session :: "string \<Rightarrow> session" where
  "initial_session dir =
     \<lparr>bg_processes = replicate MAX_BG_PROC (- 1), bg_count = 0,
      total_user_time = 0, total_sys_time = 0,
      shell_pid = 0, child_pid = - 1,
      s_cwd = dir, s_fds = std_fds, s_trace = []\<rparr>"

definition prompt :: string where
  "prompt = ''dragonshell > ''"

subsection \<open>Built-in commands\<close>

text \<open>
  \<open>cd\<close>. The message of the first branch is printed with its two quotation marks and
  its newline. \<open>chdir_result dir path\<close> is the directory in which \<open>chdir(path)\<close> leaves a process
  whose working directory is \<open>dir\<close>, or \<open>None\<close> when the call fails (and changes
  nothing).
\<close>

definition cd :: "(string \<Rightarrow> string \<Rightarrow> string option) \<Rightarrow> session \<Rightarrow> string option \<Rightarrow> session" where
  "cd chdir_result s path =
     (case path of
        None \<Rightarrow>
          s_emit (Printf (''dragonshell: Expected argument to '' @ [CHR 0x22] @ ''cd''
                            @ [CHR 0x22, CHR 0x0A]) []) s
      | Some name \<Rightarrow>
          (case chdir_result (s_cwd s) name of
             None \<Rightarrow> s_emit (Perror ''dragonshell'') (s_emit (Chdir name) s)
           | Some dir \<Rightarrow> (s_emit (Chdir name) s)\<lparr>s_cwd := dir\<rparr>))"

definition pwd :: "bool \<Rightarrow> session \<Rightarrow> session" where
  "pwd getcwd_ok s =
     (if getcwd_ok then s_emit (Printf (s_cwd s @ [CHR 0x0A]) []) (s_emit Getcwd s)
      else s_emit (Perror ''dragonshell'') (s_emit Getcwd s))"

text \<open>The \<open>for\<close> loop of \<open>exit_shell\<close> over the background slots.\<close>

fun kill_slots :: "nat list \<Rightarrow> session \<Rightarrow> session" where
  "kill_slots [] s = s"
| "kill_slots (i # rest) s =
     kill_slots rest
       (if bg_processes s ! i \<noteq> - 1 then s_emit (Kill (bg_processes s ! i) SIGTERM) s else s)"

definition exit_shell :: "rusage \<Rightarrow> session \<Rightarrow> session" where
  "exit_shell usage s =
     (let s1 = (s_emit Getrusage s)
                 \<lparr>total_user_time := total_user_time s + ru_utime_sec usage,
                  total_sys_time := total_sys_time s + ru_stime_sec usage\<rparr>;
          s2 = s_emit (Printf (''User time: %ld seconds'' @ [CHR 0x0A]) [sint (total_user_time s1)]) s1;
          s3 = s_emit (Printf (''Sys time: %ld seconds'' @ [CHR 0x0A]) [sint (total_sys_time s2)]) s2;
          s4 = kill_slots [0 ..< MAX_BG_PROC] s3
      in s_emit (Exit 0) s4)"

subsection \<open>Signal handlers\<close>

definition sigint_handler :: "session \<Rightarrow> session" where
  "sigint_handler s =
     (if child_pid s \<noteq> - 1 then s_emit (Kill (- child_pid s) SIGINT) s
      else s_emit Fflush (s_emit (Printf (CHR 0x0A # prompt) []) s))"

definition sigtstp_handler :: "session \<Rightarrow> session" where
  "sigtstp_handler s =
     (if child_pid s \<noteq> - 1 then s_emit (Kill (- child_pid s) SIGTSTP) s
      else s_emit Fflush (s_emit (Printf (CHR 0x0A # prompt) []) s))"

subsection \<open>Launching a command\<close>

text \<open>
  The parent branch of \<open>execute_command\<close> in two halves: up to the point where a
  foreground parent blocks in \<open>waitpid(pid, NULL, 0)\<close>, and from the return of that
  call on. No statement lies between \<open>fork\<close> and \<open>waitpid\<close>.
\<close>

definition fg_wait_point :: "int \<Rightarrow> session \<Rightarrow> session" where
  "fg_wait_point pid s = s_emit (Waitpid pid) s"

definition fg_after_wait :: "rusage \<Rightarrow> session \<Rightarrow> session" where
  "fg_after_wait usage s =
     (s_emit Getrusage s)
       \<lparr>total_user_time := total_user_time s + ru_utime_sec usage,
        total_sys_time := total_sys_time s + ru_stime_sec usage\<rparr>"

definition execute_command_parent :: "int \<Rightarrow> int \<Rightarrow> rusage \<Rightarrow> session \<Rightarrow> session" where
  "execute_command_parent pid background usage s =
     (if pid > 0 then
        (if background = 0 then fg_after_wait usage (fg_wait_point pid s)
         else s_emit (Printf (''PID %d is sent to background'' @ [CHR 0x0A]) [pid]) s)
      else s_emit (Perror ''dragonshell'') s)"

text \<open>
  One pass of the interpreter's loop goes on in the interpreter, ends the interpreter
  with a status, or is the life of a forked child up to its end. \<open>Crashed\<close> is a read
  outside an argument array.
\<close>

datatype step = Continue session | ShellExit int session | ChildEnd ending proc | Crashed

definition child_end :: "ending \<times> proc \<Rightarrow> step" where
  "child_end r = (case fst r of ReadPastEnd \<Rightarrow> Crashed | e \<Rightarrow> ChildEnd e (snd r))"

text \<open>\<open>execute_command\<close>; \<open>pid\<close> is what \<open>fork\<close> returns in the process modelled.\<close>

definition execute_command :: "os \<Rightarrow> int \<Rightarrow> rusage \<Rightarrow> session \<Rightarrow> argv \<Rightarrow> int \<Rightarrow> step" where
  "execute_command sy pid usage s args background =
     (if pid = 0 then child_end (execute_command_child sy args (s_fds s))
      else Continue (execute_command_parent pid background usage (s_emit (Fork pid) s)))"

subsection \<open>Pipelines\<close>

text \<open>
  \<open>is_pipe\<close>: \<open>strstr\<close> finds the first \<open>|\<close> of the C string; the first command
  is what stands before it, the second what stands after it.
\<close>

definition is_pipe :: "string \<Rightarrow> (string \<times> string) option" where
  "is_pipe input =
     (if CHR ''|'' \<in> set (c_string input)
      then Some (takeWhile (\<lambda>c. c \<noteq> CHR ''|'') (c_string input),
                 tl (dropWhile (\<lambda>c. c \<noteq> CHR ''|'') (c_string input)))
      else None)"

text \<open>What each pipeline child does with the pipe before it tokenizes its command.\<close>

definition writer_setup :: "int \<Rightarrow> int \<Rightarrow> proc \<Rightarrow> proc" where
  "writer_setup r w p = do_close w (do_dup2 w STDOUT_FILENO (do_close r p))"

definition reader_setup :: "int \<Rightarrow> int \<Rightarrow> proc \<Rightarrow> proc" where
  "reader_setup r w p = do_close r (do_dup2 r STDIN_FILENO (do_close w p))"

text \<open>\<open>split_line\<close> and \<open>execvp\<close> in a pipeline child.\<close>

definition pipe_child_run :: "os \<Rightarrow> (nat \<Rightarrow> bool) \<Rightarrow> string \<Rightarrow> proc \<Rightarrow> ending \<times> proc" where
  "pipe_child_run sy alloc cmd p =
     (case split_line alloc cmd of
        None \<Rightarrow> do_exit EXIT_FAILURE (emit (Fprintf_stderr (''lsh: allocation error'' @ [CHR 0x0A])) p)
      | Some args \<Rightarrow> do_execvp sy (p\<lparr>p_args := args\<rparr>))"

text \<open>What the parent does once both children exist.\<close>

definition pipe_parent_tail :: "int \<Rightarrow> int \<Rightarrow> int \<Rightarrow> int \<Rightarrow> syscall list" where
  "pipe_parent_tail r w p1 p2 = [Close r, Close w, Waitpid p1, Waitpid p2]"

definition s_close :: "int \<Rightarrow> session \<Rightarrow> session" where
  "s_close fd s = (s_emit (Close fd) s)\<lparr>s_fds := (s_fds s)(fd := None)\<rparr>"

text \<open>
  \<open>execute_pipe\<close>. \<open>pipe_res\<close> is the pair of descriptors that \<open>pipe\<close> stores (\<open>None\<close>
  when it returns \<open>-1\<close>), \<open>k\<close> names the pipe it creates, \<open>f1\<close> and \<open>f2\<close> are what the
  two calls of \<open>fork\<close> return in the process modelled.
\<close>

definition execute_pipe ::
  "os \<Rightarrow> (nat \<Rightarrow> bool) \<Rightarrow> (int \<times> int) option \<Rightarrow> nat \<Rightarrow> int \<Rightarrow> int \<Rightarrow> session \<Rightarrow> string \<Rightarrow> string \<Rightarrow> step" where
  "execute_pipe sy alloc pipe_res k f1 f2 s cmd1 cmd2 =
     (case pipe_res of
        None \<Rightarrow> Continue (s_emit (Perror ''dragonshell: pipe failed'') (s_emit (Pipe_call None) s))
      | Some (r, w) \<Rightarrow>
          (let s1 = (s_emit (Pipe_call (Some (r, w))) s)
                      \<lparr>s_fds := (s_fds s)(r \<mapsto> PipeRead k, w \<mapsto> PipeWrite k)\<rparr>
           in if f1 = 0 then
                child_end (pipe_child_run sy alloc cmd1
                  (writer_setup r w \<lparr>p_args = [], p_fds = s_fds s1, p_trace = []\<rparr>))
              else if f1 < 0 then
                Continue (s_emit (Perror ''dragonshell: fork failed'') (s_emit (Fork f1) s1))
              else
                (let s2 = s_emit (Fork f1) s1
                 in if f2 = 0 then
                      child_end (pipe_child_run sy alloc cmd2
                        (reader_setup r w \<lparr>p_args = [], p_fds = s_fds s2, p_trace = []\<rparr>))
                    else if f2 < 0 then
                      Continue (s_emit (Perror ''dragonshell: fork failed'') (s_emit (Fork f2) s2))
                    else
                      Continue (s_emit (Waitpid f2) (s_emit (Waitpid f1)
                                 (s_close w (s_close r (s_emit (Fork f2) s2))))))))"

text \<open>
  Blocking: the parent's pending calls and the set of its children that have
  terminated. Children may terminate at any moment; \<open>waitpid(c, NULL, 0)\<close> returns
  only once \<open>c\<close> has terminated; every other call returns at once.
\<close>

fun is_wait :: "syscall \<Rightarrow> bool" where
  "is_wait (Waitpid c) = True"
| "is_wait _ = False"

inductive pstep :: "syscall list \<times> int set \<Rightarrow> syscall list \<times> int set \<Rightarrow> bool" where
  children_terminate: "dead \<subseteq> dead' \<Longrightarrow> pstep (todo, dead) (todo, dead')"
| wait_returns: "c \<in> dead \<Longrightarrow> pstep (Waitpid c # todo, dead) (todo, dead)"
| call_returns: "\<not> is_wait a \<Longrightarrow> pstep (a # todo, dead) (todo, dead)"

code_pred (modes: i \<Rightarrow> i \<Rightarrow> bool) pstep .

subsection \<open>The interpreter's loop\<close>

text \<open>What the environment answers during one pass of the loop.\<close>

record world =
  w_os :: os
  w_alloc :: "nat \<Rightarrow> bool"
  w_pipe :: "(int \<times> int) option"
  w_pipe_id :: nat
  w_fork1 :: int
  w_fork2 :: int
  w_usage :: rusage
  w_chdir :: "string \<Rightarrow> string \<Rightarrow> string option"
  w_getcwd_ok :: bool

datatype input = Line string | Eof | ReadError

text \<open>The body of the loop from the test of \<open>tokens[0]\<close> on.\<close>

definition dispatch :: "world \<Rightarrow> session \<Rightarrow> argv \<Rightarrow> step" where
  "dispatch w s tokens =
     (if length tokens = 0 then Crashed
      else case tokens ! 0 of
             None \<Rightarrow> Continue s
           | Some t \<Rightarrow>
               if t = ''cd'' then
                 (if length tokens \<le> 1 then Crashed
                  else Continue (cd (w_chdir w) s (tokens ! 1)))
               else if t = ''pwd'' then Continue (pwd (w_getcwd_ok w) s)
               else if t = ''exit'' then ShellExit 0 (exit_shell (w_usage w) s)
               else case is_background_process tokens of
                      None \<Rightarrow> Crashed
                    | Some (background, tokens') \<Rightarrow>
                        execute_command (w_os w) (w_fork1 w) (w_usage w) s tokens' background)"

text \<open>One pass of the \<open>while (1)\<close> loop of \<open>main\<close>, \<open>read_line\<close> included.\<close>

definition main_step :: "world \<Rightarrow> session \<Rightarrow> input \<Rightarrow> step" where
  "main_step w s inp =
     (let s0 = s_emit (Printf prompt []) s
      in case inp of
           Eof \<Rightarrow> ShellExit EXIT_SUCCESS (s_emit (Exit EXIT_SUCCESS) s0)
         | ReadError \<Rightarrow>
             ShellExit EXIT_FAILURE
               (s_emit (Exit EXIT_FAILURE) (s_emit (Perror ''Error in getline()'') s0))
         | Line ln \<Rightarrow>
             (case is_pipe ln of
                Some (cmd1, cmd2) \<Rightarrow>
                  execute_pipe (w_os w) (w_alloc w) (w_pipe w) (w_pipe_id w)
                    (w_fork1 w) (w_fork2 w) s0 cmd1 cmd2
              | None \<Rightarrow>
                  (case split_line (w_alloc w) ln of
                     None \<Rightarrow>
                       ShellExit EXIT_FAILURE
                         (s_emit (Exit EXIT_FAILURE)
                            (s_emit (Fprintf_stderr (''lsh: allocation error'' @ [CHR 0x0A])) s0))
                   | Some tokens \<Rightarrow> dispatch w s0 tokens)))"

text \<open>
  Any number of passes of the loop, each with its own environment and input; \<open>None\<close>
  when a pass does not return to the top of the loop.
\<close>

fun run_lines :: "(world \<times> input) list \<Rightarrow> session \<Rightarrow> session option" where
  "run_lines [] s = Some s"
| "run_lines ((w, inp) # rest) s =
     (case main_step w s inp of Continue s' \<Rightarrow> run_lines rest s' | _ \<Rightarrow> None)"

text \<open>The tokens of a vector that lie before the first occurrence of an operator.\<close>

definition before_op :: "string \<Rightarrow> string list \<Rightarrow> string list" where
  "before_op opr v = takeWhile (\<lambda>t. t \<noteq> opr) v"

text \<open>Sample environments for the concrete runs below.\<close>

definition no_usage :: rusage where
  "no_usage = \<lparr>ru_utime_sec = 0, ru_stime_sec = 0\<rparr>"

definition world_ok :: world where
  "world_ok = \<lparr>w_os = os_ok, w_alloc = (\<lambda>n. True), w_pipe = Some (3, 4), w_pipe_id = 0,
               w_fork1 = 4242, w_fork2 = 4243, w_usage = no_usage,
               w_chdir = (\<lambda>dir path. None), w_getcwd_ok = True\<rparr>"

definition world_no_memory :: world where
  "world_no_memory = world_ok\<lparr>w_alloc := (\<lambda>n. False)\<rparr>"

subsection \<open>Properties of the vector scans\<close>

declare bg_scan.simps [simp del]
declare scan_redirect.simps [simp del]

lemma visible_Nil [simp]: "visible [] = []"
  by (simp add: visible_def)

lemma visible_None [simp]: "visible (None # a) = []"
  by (simp add: visible_def)

lemma visible_Some [simp]: "visible (Some t # a) = t # visible a"
  by (simp add: visible_def)

lemma visible_append_None [simp]: "visible (map Some pre @ None # post) = pre"
  by (induction pre) simp_all

lemma visible_append_Some: "visible (map Some pre @ a) = pre @ visible a"
  by (induction pre) simp_all

lemma terminated_Cons [simp]: "terminated (x # a) = (x = None \<or> terminated a)"
  by (auto simp: terminated_def)

lemma terminated_Nil [simp]: "\<not> terminated []"
  by (simp add: terminated_def)

lemma terminated_append [simp]: "terminated (a @ b) = (terminated a \<or> terminated b)"
  by (auto simp: terminated_def)

lemma terminated_map_Some [simp]: "\<not> terminated (map Some pre)"
  by (auto simp: terminated_def)

text \<open>A vector that shows the token \<open>opr\<close> splits at its first occurrence.\<close>

lemma split_at_operator:
  "opr \<in> set (visible a) \<Longrightarrow>
   \<exists>post. a = map Some (takeWhile (\<lambda>t. t \<noteq> opr) (visible a)) @ Some opr # post"
proof (induction a)
  case Nil
  then show ?case by simp
next
  case (Cons x a)
  show ?case
  proof (cases x)
    case None
    with Cons.prems show ?thesis by simp
  next
    case (Some t)
    show ?thesis
    proof (cases "t = opr")
      case True
      with Some show ?thesis by simp
    next
      case False
      with Some Cons.prems have "opr \<in> set (visible a)" by simp
      from Cons.IH [OF this] obtain post where
        eq: "a = map Some (takeWhile (\<lambda>t. t \<noteq> opr) (visible a)) @ Some opr # post" ..
      have "Some t # a
          = map Some (takeWhile (\<lambda>t. t \<noteq> opr) (visible (Some t # a))) @ Some opr # post"
        by (simp add: False) (rule eq)
      with Some show ?thesis by blast
    qed
  qed
qed

lemma split_at_terminator:
  "terminated a \<Longrightarrow> \<exists>post. a = map Some (visible a) @ None # post"
proof (induction a)
  case Nil
  then show ?case by simp
next
  case (Cons x a)
  then show ?case by (cases x) auto
qed

lemma bg_scan_found:
  "opr = ''&'' \<Longrightarrow> opr \<notin> set pre \<Longrightarrow>
   bg_scan (seen @ map Some pre @ Some opr # post) (length seen)
     = Some (1, seen @ map Some pre @ None # post)"
proof (induction pre arbitrary: seen)
  case Nil
  then show ?case by (subst bg_scan.simps) (simp add: nth_append list_update_append)
next
  case (Cons t pre)
  from Cons.prems have "t \<noteq> ''&''" by auto
  moreover have "bg_scan ((seen @ [Some t]) @ map Some pre @ Some opr # post) (length (seen @ [Some t]))
      = Some (1, (seen @ [Some t]) @ map Some pre @ None # post)"
    using Cons.prems by (intro Cons.IH) auto
  ultimately show ?case by (subst bg_scan.simps) (simp add: nth_append)
qed

lemma bg_scan_absent:
  "''&'' \<notin> set pre \<Longrightarrow>
   bg_scan (seen @ map Some pre @ None # post) (length seen)
     = Some (0, seen @ map Some pre @ None # post)"
proof (induction pre arbitrary: seen)
  case Nil
  then show ?case by (subst bg_scan.simps) (simp add: nth_append)
next
  case (Cons t pre)
  from Cons.prems have "t \<noteq> ''&''" by auto
  moreover have "bg_scan ((seen @ [Some t]) @ map Some pre @ None # post) (length (seen @ [Some t]))
      = Some (0, (seen @ [Some t]) @ map Some pre @ None # post)"
    using Cons.prems by (intro Cons.IH) auto
  ultimately show ?case by (subst bg_scan.simps) (simp add: nth_append)
qed

text \<open>
  Claim C10. A token \<open>&\<close> at any position of a terminated argument vector, not only
  at its end, makes \<open>is_background_process\<close> return 1, and the function stores \<open>NULL\<close>
  over the first such token: what the vector shows afterwards is exactly the tokens
  before the first \<open>&\<close>, so every argument after it is dropped.
\<close>

theorem background_marker_anywhere:
  assumes "terminated args" and "''&'' \<in> set (visible args)"
  shows "\<exists>args'. is_background_process args = Some (1, args')
           \<and> length args' = length args
           \<and> visible args' = takeWhile (\<lambda>t. t \<noteq> ''&'') (visible args)"
proof -
  let ?pre = "takeWhile (\<lambda>t. t \<noteq> ''&'') (visible args)"
  from split_at_operator [OF assms(2)] obtain post where
    a: "args = map Some ?pre @ Some ''&'' # post" ..
  have "''&'' \<notin> set ?pre" by (auto dest: set_takeWhileD)
  then have "bg_scan ([] @ map Some ?pre @ Some ''&'' # post) (length ([] :: argv))
      = Some (1, [] @ map Some ?pre @ None # post)"
    by (intro bg_scan_found) simp_all
  with a have "is_background_process args = Some (1, map Some ?pre @ None # post)"
    by (simp add: is_background_process_def)
  moreover have "length (map Some ?pre @ None # post) = length args"
    by (subst (2) a) simp
  ultimately show ?thesis by simp
qed

theorem background_marker_anywhere_witness:
  "terminated [Some ''sleep'', Some ''9'', Some ''&'', Some ''x'', Some ''&'', None]
   \<and> ''&'' \<in> set (visible [Some ''sleep'', Some ''9'', Some ''&'', Some ''x'', Some ''&'', None])
   \<and> is_background_process [Some ''sleep'', Some ''9'', Some ''&'', Some ''x'', Some ''&'', None]
       = Some (1, [Some ''sleep'', Some ''9'', None, Some ''x'', Some ''&'', None])
   \<and> visible [Some ''sleep'', Some ''9'', None, Some ''x'', Some ''&'', None] = [''sleep'', ''9'']"
proof -
  let ?a = "[Some ''sleep'', Some ''9'', Some ''&'', Some ''x'', Some ''&'', None]"
  have h1: "terminated ?a" by simp
  have h2: "''&'' \<in> set (visible ?a)" by simp
  have e: "is_background_process ?a
             = Some (1, [Some ''sleep'', Some ''9'', None, Some ''x'', Some ''&'', None])"
    by (simp add: is_background_process_def bg_scan.simps)
  from background_marker_anywhere [OF h1 h2] e
  have "visible [Some ''sleep'', Some ''9'', None, Some ''x'', Some ''&'', None]
          = takeWhile (\<lambda>t. t \<noteq> ''&'') (visible ?a)"
    by simp
  with h1 h2 e show ?thesis by simp
qed

lemma p_args_emit [simp]: "p_args (emit c p) = p_args p"
  by (simp add: emit_def)

lemma p_args_do_open [simp]: "p_args (snd (do_open sy path fl md p)) = p_args p"
  by (simp add: do_open_def Let_def)

lemma p_args_do_open_eq: "do_open sy path fl md p = (fd, p1) \<Longrightarrow> p_args p1 = p_args p"
  using p_args_do_open [of sy path fl md p] by simp

lemma p_args_do_dup2 [simp]: "p_args (do_dup2 a b p) = p_args p"
  by (simp add: do_dup2_def Let_def split: option.splits)

lemma p_args_do_close [simp]: "p_args (do_close a p) = p_args p"
  by (simp add: do_close_def)

lemma p_args_bind_fd [simp]: "p_args (bind_fd fd target p) = p_args p"
  by (simp add: bind_fd_def)

lemma scan_redirect_absent:
  "opr \<notin> set pre \<Longrightarrow> p_args p = seen @ map Some pre @ None # post \<Longrightarrow>
   scan_redirect opr fl md sy p (length seen) = Inr (- 1, p)"
proof (induction pre arbitrary: seen)
  case Nil
  then show ?case by (subst scan_redirect.simps) (simp add: nth_append)
next
  case (Cons t pre)
  from Cons.prems have "t \<noteq> opr" by auto
  moreover have "scan_redirect opr fl md sy p (length (seen @ [Some t])) = Inr (- 1, p)"
    using Cons.prems by (intro Cons.IH) auto
  ultimately show ?case
    using Cons.prems(2) by (subst scan_redirect.simps) (simp add: nth_append)
qed

lemma scan_redirect_found:
  "opr \<notin> set pre \<Longrightarrow> p_args p = seen @ map Some pre @ Some opr # nxt # post \<Longrightarrow>
   scan_redirect opr fl md sy p (length seen) =
     (if fst (do_open sy nxt fl md p) = - 1
      then Inl (do_exit EXIT_FAILURE (emit (Perror ''dragonshell'') (snd (do_open sy nxt fl md p))))
      else Inr (fst (do_open sy nxt fl md p),
                (snd (do_open sy nxt fl md p))\<lparr>p_args := seen @ map Some pre @ None # nxt # post\<rparr>))"
proof (induction pre arbitrary: seen)
  case Nil
  then show ?case
    by (subst scan_redirect.simps)
       (auto simp: nth_append list_update_append split: prod.splits
             dest!: p_args_do_open_eq)
next
  case (Cons t pre)
  from Cons.prems have "t \<noteq> opr" by auto
  moreover have "scan_redirect opr fl md sy p (length (seen @ [Some t])) =
     (if fst (do_open sy nxt fl md p) = - 1
      then Inl (do_exit EXIT_FAILURE (emit (Perror ''dragonshell'') (snd (do_open sy nxt fl md p))))
      else Inr (fst (do_open sy nxt fl md p),
                (snd (do_open sy nxt fl md p))\<lparr>p_args := (seen @ [Some t]) @ map Some pre @ None # nxt # post\<rparr>))"
    using Cons.prems by (intro Cons.IH) auto
  ultimately show ?case
    using Cons.prems(2) by (subst scan_redirect.simps) (simp add: nth_append)
qed

text \<open>In a terminated vector an operator is followed by at least the terminator slot.\<close>

lemma split_at_operator_next:
  assumes "terminated a" and "opr \<in> set (visible a)"
  shows "\<exists>nxt post. a = map Some (before_op opr (visible a)) @ Some opr # nxt # post
           \<and> terminated (nxt # post)"
proof -
  from split_at_operator [OF assms(2)] obtain post where
    a: "a = map Some (before_op opr (visible a)) @ Some opr # post"
    unfolding before_op_def ..
  have "terminated (map Some (before_op opr (visible a)) @ Some opr # post)"
    using assms(1) by (subst (asm) a)
  then have "terminated post" by simp
  then obtain nxt post' where "post = nxt # post'" by (cases post) auto
  with a \<open>terminated post\<close> show ?thesis by blast
qed

lemma before_op_free [simp]: "opr \<notin> set (before_op opr v)"
  by (auto simp: before_op_def dest: set_takeWhileD)

lemma before_op_absent: "opr \<notin> set v \<Longrightarrow> before_op opr v = v"
  by (auto simp: before_op_def)

text \<open>
  Every run of a scan over a terminated vector stays inside it: either the process
  reports \<open>dragonshell\<close> and exits with failure, or the vector is cut at the first
  operator and still terminated.
\<close>

lemma scan_redirect_outcome:
  assumes "terminated (p_args p)"
  shows "(\<exists>p' tr. scan_redirect opr fl md sy p 0 = Inl (Exited EXIT_FAILURE, p')
             \<and> p_trace p' = tr @ [Perror ''dragonshell'', Exit EXIT_FAILURE])
       \<or> (\<exists>fd p'. scan_redirect opr fl md sy p 0 = Inr (fd, p')
             \<and> terminated (p_args p')
             \<and> visible (p_args p') = before_op opr (visible (p_args p)))"
proof (cases "opr \<in> set (visible (p_args p))")
  case True
  from split_at_operator_next [OF assms True] obtain nxt post where
    a: "p_args p = [] @ map Some (before_op opr (visible (p_args p))) @ Some opr # nxt # post"
    by auto
  note r = scan_redirect_found [OF before_op_free a, of fl md sy, simplified]
  show ?thesis
  proof (cases "fst (do_open sy nxt fl md p) = - 1")
    case True
    with r show ?thesis by (simp add: do_exit_def emit_def)
  next
    case False
    with r show ?thesis by simp
  qed
next
  case False
  from split_at_terminator [OF assms] obtain post where
    a: "p_args p = [] @ map Some (visible (p_args p)) @ None # post" by auto
  from scan_redirect_absent [OF False a, of fl md sy]
  show ?thesis using assms False by (simp add: before_op_absent)
qed

lemma do_execvp_outcome:
  assumes "terminated (p_args p)"
  shows "(fst (do_execvp sy p) = Exited EXIT_FAILURE
          \<and> visible (p_args p) \<noteq> []
          \<and> (\<exists>tr. p_trace (snd (do_execvp sy p)) = tr @ [Perror ''dragonshell'', Exit EXIT_FAILURE]))
       \<or> (fst (do_execvp sy p) = Replaced (hd (visible (p_args p))) (visible (p_args p))
          \<and> visible (p_args p) \<noteq> []
          \<and> exec_ok sy (hd (visible (p_args p))) (visible (p_args p)))
       \<or> (fst (do_execvp sy p) = Killed SIGSEGV \<and> visible (p_args p) = [])"
proof -
  from assms obtain x rest where a: "p_args p = x # rest" by (cases "p_args p") auto
  show ?thesis
  proof (cases x)
    case None
    with a assms show ?thesis by (simp add: do_execvp_def Let_def)
  next
    case (Some name)
    with a assms show ?thesis
      by (cases "exec_ok sy name (name # visible rest)")
         (simp_all add: do_execvp_def Let_def do_exit_def emit_def)
  qed
qed

text \<open>
  How the child of \<open>execute_command\<close> can end on a terminated vector: it reports
  \<open>dragonshell\<close> and exits with failure; or it runs the tokens that precede the first
  \<open>>\<close> and, among those, the first \<open><\<close>; or no such token is left and it is killed
  inside \<open>execvp\<close>. It never reads past the vector.
\<close>

lemma child_endings:
  assumes "terminated args"
  shows "(fst (execute_command_child sy args fds) = Exited EXIT_FAILURE
          \<and> (\<exists>tr. p_trace (snd (execute_command_child sy args fds))
                     = tr @ [Perror ''dragonshell'', Exit EXIT_FAILURE]))
       \<or> (fst (execute_command_child sy args fds)
            = Replaced (hd (before_op ''<'' (before_op ''>'' (visible args))))
                       (before_op ''<'' (before_op ''>'' (visible args)))
          \<and> before_op ''<'' (before_op ''>'' (visible args)) \<noteq> []
          \<and> exec_ok sy (hd (before_op ''<'' (before_op ''>'' (visible args))))
                        (before_op ''<'' (before_op ''>'' (visible args))))
       \<or> (fst (execute_command_child sy args fds) = Killed SIGSEGV
          \<and> before_op ''<'' (before_op ''>'' (visible args)) = [])"
proof -
  let ?p0 = "\<lparr>p_args = args, p_fds = fds, p_trace = []\<rparr>"
  have t0: "terminated (p_args ?p0)" using assms by simp
  from scan_redirect_outcome [OF t0, of "''>''" "[O_WRONLY, O_CREAT, O_TRUNC]" "Some mode_0644" sy]
  show ?thesis
  proof (elim disjE exE conjE)
    fix p' tr
    assume "scan_redirect ''>'' [O_WRONLY, O_CREAT, O_TRUNC] (Some mode_0644) sy ?p0 0
              = Inl (Exited EXIT_FAILURE, p')"
      and "p_trace p' = tr @ [Perror ''dragonshell'', Exit EXIT_FAILURE]"
    then show ?thesis by (simp add: execute_command_child_def output_scan_def)
  next
    fix fd p1
    assume o: "scan_redirect ''>'' [O_WRONLY, O_CREAT, O_TRUNC] (Some mode_0644) sy ?p0 0
                 = Inr (fd, p1)"
      and t1: "terminated (p_args p1)"
      and v1: "visible (p_args p1) = before_op ''>'' (visible (p_args ?p0))"
    let ?q = "bind_fd fd STDOUT_FILENO p1"
    have tq: "terminated (p_args ?q)" using t1 by simp
    from scan_redirect_outcome [OF tq, of "''<''" "[O_RDONLY]" None sy]
    show ?thesis
    proof (elim disjE exE conjE)
      fix p' tr
      assume "scan_redirect ''<'' [O_RDONLY] None sy ?q 0 = Inl (Exited EXIT_FAILURE, p')"
        and "p_trace p' = tr @ [Perror ''dragonshell'', Exit EXIT_FAILURE]"
      with o show ?thesis
        by (simp add: execute_command_child_def output_scan_def input_scan_def)
    next
      fix fd2 p2
      assume i: "scan_redirect ''<'' [O_RDONLY] None sy ?q 0 = Inr (fd2, p2)"
        and t2: "terminated (p_args p2)"
        and v2: "visible (p_args p2) = before_op ''<'' (visible (p_args ?q))"
      let ?r = "bind_fd fd2 STDIN_FILENO p2"
      have tr: "terminated (p_args ?r)" using t2 by simp
      have vr: "visible (p_args ?r) = before_op ''<'' (before_op ''>'' (visible args))"
        using v1 v2 by simp
      have "execute_command_child sy args fds = do_execvp sy ?r"
        using o i by (simp add: execute_command_child_def output_scan_def input_scan_def)
      with do_execvp_outcome [OF tr, of sy] vr show ?thesis by auto
    qed
  qed
qed

lemmas child_eval =
  execute_command_child_def output_scan_def input_scan_def scan_redirect.simps
  do_open_def sys_open_def emit_def bind_fd_def do_dup2_def do_close_def do_execvp_def
  do_exit_def Let_def STDOUT_FILENO_def STDIN_FILENO_def EXIT_FAILURE_def

lemma output_scan_opens:
  assumes "''>'' \<notin> set pre" and "open_result sy name [O_WRONLY, O_CREAT, O_TRUNC] \<noteq> - 1"
  shows "output_scan sy \<lparr>p_args = map Some pre @ Some ''>'' # Some name # post,
                          p_fds = fds, p_trace = tr\<rparr>
      = Inr (open_result sy name [O_WRONLY, O_CREAT, O_TRUNC],
             \<lparr>p_args = map Some pre @ None # Some name # post,
              p_fds = fds(open_result sy name [O_WRONLY, O_CREAT, O_TRUNC]
                            \<mapsto> OpenFile name [O_WRONLY, O_CREAT, O_TRUNC]),
              p_trace = tr @ [Open (Some name) [O_WRONLY, O_CREAT, O_TRUNC] (Some mode_0644)
                                (open_result sy name [O_WRONLY, O_CREAT, O_TRUNC])]\<rparr>)"
proof -
  let ?p = "\<lparr>p_args = map Some pre @ Some ''>'' # Some name # post, p_fds = fds, p_trace = tr\<rparr>"
  have a: "p_args ?p = [] @ map Some pre @ Some ''>'' # Some name # post" by simp
  show ?thesis
    unfolding output_scan_def
    using scan_redirect_found [OF assms(1) a, of "[O_WRONLY, O_CREAT, O_TRUNC]" "Some mode_0644" sy]
      assms(2)
    by (simp add: do_open_def sys_open_def emit_def Let_def)
qed

lemma input_scan_opens:
  assumes "''<'' \<notin> set pre" and "open_result sy name [O_RDONLY] \<noteq> - 1"
  shows "input_scan sy \<lparr>p_args = map Some pre @ Some ''<'' # Some name # post,
                         p_fds = fds, p_trace = tr\<rparr>
      = Inr (open_result sy name [O_RDONLY],
             \<lparr>p_args = map Some pre @ None # Some name # post,
              p_fds = fds(open_result sy name [O_RDONLY] \<mapsto> OpenFile name [O_RDONLY]),
              p_trace = tr @ [Open (Some name) [O_RDONLY] None
                                (open_result sy name [O_RDONLY])]\<rparr>)"
proof -
  let ?p = "\<lparr>p_args = map Some pre @ Some ''<'' # Some name # post, p_fds = fds, p_trace = tr\<rparr>"
  have a: "p_args ?p = [] @ map Some pre @ Some ''<'' # Some name # post" by simp
  show ?thesis
    unfolding input_scan_def
    using scan_redirect_found [OF assms(1) a, of "[O_RDONLY]" None sy] assms(2)
    by (simp add: do_open_def sys_open_def emit_def Let_def)
qed








subsection \<open>Dangling operators and the order of the two scans\<close>

lemma output_scan_dangling:
  assumes "''>'' \<notin> set pre"
  shows "output_scan sy \<lparr>p_args = map Some pre @ Some ''>'' # None # post, p_fds = fds, p_trace = tr\<rparr>
    = Inl (Exited EXIT_FAILURE,
           \<lparr>p_args = map Some pre @ Some ''>'' # None # post, p_fds = fds,
            p_trace = tr @ [Open None [O_WRONLY, O_CREAT, O_TRUNC] (Some mode_0644) (- 1),
                            Perror ''dragonshell'', Exit EXIT_FAILURE]\<rparr>)"
proof -
  let ?p = "\<lparr>p_args = map Some pre @ Some ''>'' # None # post, p_fds = fds, p_trace = tr\<rparr>"
  have a: "p_args ?p = [] @ map Some pre @ Some ''>'' # None # post" by simp
  show ?thesis
    unfolding output_scan_def
    using scan_redirect_found [OF assms a, of "[O_WRONLY, O_CREAT, O_TRUNC]" "Some mode_0644" sy]
    by (simp add: do_open_def sys_open_def emit_def do_exit_def Let_def)
qed

lemma output_scan_none:
  assumes "''>'' \<notin> set v"
  shows "output_scan sy \<lparr>p_args = map Some v @ None # post, p_fds = fds, p_trace = tr\<rparr>
    = Inr (- 1, \<lparr>p_args = map Some v @ None # post, p_fds = fds, p_trace = tr\<rparr>)"
proof -
  let ?p = "\<lparr>p_args = map Some v @ None # post, p_fds = fds, p_trace = tr\<rparr>"
  have a: "p_args ?p = [] @ map Some v @ None # post" by simp
  show ?thesis
    unfolding output_scan_def
    using scan_redirect_absent [OF assms a, of "[O_WRONLY, O_CREAT, O_TRUNC]" "Some mode_0644" sy]
    by simp
qed

lemma input_scan_none:
  assumes "''<'' \<notin> set v"
  shows "input_scan sy \<lparr>p_args = map Some v @ None # post, p_fds = fds, p_trace = tr\<rparr>
    = Inr (- 1, \<lparr>p_args = map Some v @ None # post, p_fds = fds, p_trace = tr\<rparr>)"
proof -
  let ?p = "\<lparr>p_args = map Some v @ None # post, p_fds = fds, p_trace = tr\<rparr>"
  have a: "p_args ?p = [] @ map Some v @ None # post" by simp
  show ?thesis
    unfolding input_scan_def
    using scan_redirect_absent [OF assms a, of "[O_RDONLY]" None sy]
    by simp
qed

lemma input_scan_dangling:
  assumes "''<'' \<notin> set pre"
  shows "input_scan sy \<lparr>p_args = map Some pre @ Some ''<'' # None # post, p_fds = fds, p_trace = tr\<rparr>
    = Inl (Exited EXIT_FAILURE,
           \<lparr>p_args = map Some pre @ Some ''<'' # None # post, p_fds = fds,
            p_trace = tr @ [Open None [O_RDONLY] None (- 1),
                            Perror ''dragonshell'', Exit EXIT_FAILURE]\<rparr>)"
proof -
  let ?p = "\<lparr>p_args = map Some pre @ Some ''<'' # None # post, p_fds = fds, p_trace = tr\<rparr>"
  have a: "p_args ?p = [] @ map Some pre @ Some ''<'' # None # post" by simp
  show ?thesis
    unfolding input_scan_def
    using scan_redirect_found [OF assms a, of "[O_RDONLY]" None sy]
    by (simp add: do_open_def sys_open_def emit_def do_exit_def Let_def)
qed

lemma child_never_reads_past_end:
  "terminated args \<Longrightarrow> fst (execute_command_child sy args fds) \<noteq> ReadPastEnd"
  using child_endings [of args sy fds] by auto

text \<open>
  Claim C4, as the code has it. When the first \<open>>\<close> of a vector is its last token, or
  the vector has no \<open>>\<close> and its first \<open><\<close> is its last token, the child hands the
  \<open>NULL\<close> of the terminator slot to \<open>open\<close>, which fails, reports \<open>dragonshell\<close> and
  exits with \<open>EXIT_FAILURE\<close> before any \<open>execvp\<close>. On no terminated vector does the
  child read a slot past the terminator.
\<close>

theorem dangling_operator_exits_child:
  "(''>'' \<notin> set pre \<longrightarrow>
      execute_command_child sy (map Some pre @ Some ''>'' # None # post) fds
      = (Exited EXIT_FAILURE,
         \<lparr>p_args = map Some pre @ Some ''>'' # None # post, p_fds = fds,
          p_trace = [Open None [O_WRONLY, O_CREAT, O_TRUNC] (Some mode_0644) (- 1),
                     Perror ''dragonshell'', Exit EXIT_FAILURE]\<rparr>))
   \<and> (''>'' \<notin> set pre \<and> ''<'' \<notin> set pre \<longrightarrow>
      execute_command_child sy (map Some pre @ Some ''<'' # None # post) fds
      = (Exited EXIT_FAILURE,
         \<lparr>p_args = map Some pre @ Some ''<'' # None # post, p_fds = fds,
          p_trace = [Open None [O_RDONLY] None (- 1),
                     Perror ''dragonshell'', Exit EXIT_FAILURE]\<rparr>))
   \<and> (terminated args \<longrightarrow> fst (execute_command_child sy args fds) \<noteq> ReadPastEnd)"
proof (intro conjI impI)
  assume "''>'' \<notin> set pre"
  then show "execute_command_child sy (map Some pre @ Some ''>'' # None # post) fds
      = (Exited EXIT_FAILURE,
         \<lparr>p_args = map Some pre @ Some ''>'' # None # post, p_fds = fds,
          p_trace = [Open None [O_WRONLY, O_CREAT, O_TRUNC] (Some mode_0644) (- 1),
                     Perror ''dragonshell'', Exit EXIT_FAILURE]\<rparr>)"
    by (simp add: execute_command_child_def output_scan_dangling)
next
  assume h: "''>'' \<notin> set pre \<and> ''<'' \<notin> set pre"
  then have "''>'' \<notin> set (pre @ [''<''])" by simp
  from output_scan_none [OF this, of sy post fds "[]"]
  have "output_scan sy \<lparr>p_args = map Some pre @ Some ''<'' # None # post, p_fds = fds, p_trace = []\<rparr>
      = Inr (- 1, \<lparr>p_args = map Some pre @ Some ''<'' # None # post, p_fds = fds, p_trace = []\<rparr>)"
    by simp
  with h show "execute_command_child sy (map Some pre @ Some ''<'' # None # post) fds
      = (Exited EXIT_FAILURE,
         \<lparr>p_args = map Some pre @ Some ''<'' # None # post, p_fds = fds,
          p_trace = [Open None [O_RDONLY] None (- 1),
                     Perror ''dragonshell'', Exit EXIT_FAILURE]\<rparr>)"
    by (simp add: execute_command_child_def bind_fd_def input_scan_dangling)
next
  assume "terminated args"
  then show "fst (execute_command_child sy args fds) \<noteq> ReadPastEnd"
    by (rule child_never_reads_past_end)
qed

theorem dangling_operator_exits_child_witness:
  "''>'' \<notin> set [''cmd'']
   \<and> execute_command_child os_ok [Some ''cmd'', Some ''>'', None] std_fds
      = (Exited EXIT_FAILURE,
         \<lparr>p_args = [Some ''cmd'', Some ''>'', None], p_fds = std_fds,
          p_trace = [Open None [O_WRONLY, O_CREAT, O_TRUNC] (Some mode_0644) (- 1),
                     Perror ''dragonshell'', Exit EXIT_FAILURE]\<rparr>)
   \<and> (''>'' \<notin> set [''cmd''] \<and> ''<'' \<notin> set [''cmd''])
   \<and> execute_command_child os_ok [Some ''cmd'', Some ''<'', None] std_fds
      = (Exited EXIT_FAILURE,
         \<lparr>p_args = [Some ''cmd'', Some ''<'', None], p_fds = std_fds,
          p_trace = [Open None [O_RDONLY] None (- 1),
                     Perror ''dragonshell'', Exit EXIT_FAILURE]\<rparr>)
   \<and> terminated [Some ''cmd'', Some ''<'', None]
   \<and> fst (execute_command_child os_ok [Some ''cmd'', Some ''<'', None] std_fds) \<noteq> ReadPastEnd"
  using dangling_operator_exits_child
          [of "[''cmd'']" os_ok "[]" std_fds "[Some ''cmd'', Some ''<'', None]"]
  by simp

text \<open>
  The claim as worded fails when an earlier operator has been honoured: in
  \<open>cmd > out <\<close> the last token is an operator without a file name, no scan
  reaches it, and the command runs.
\<close>

theorem trailing_operator_after_redirect_runs:
  "last (visible [Some ''cmd'', Some ''>'', Some ''out'', Some ''<'', None]) = ''<''
   \<and> fst (execute_command_child os_ok
            [Some ''cmd'', Some ''>'', Some ''out'', Some ''<'', None] std_fds)
       = Replaced ''cmd'' [''cmd'']"
  by (simp add: child_eval os_ok_def std_fds_def)

text \<open>
  Claim C9. When the first \<open>>\<close> of the vector stands before every \<open><\<close>, and its file
  opens on an unused descriptor, the child opens that file, binds it to standard
  output, opens nothing for reading and leaves standard input as it was: the input
  scan stops at the \<open>NULL\<close> stored over \<open>>\<close>, whatever follows the file name.
\<close>

theorem output_redirect_hides_later_input:
  assumes "''>'' \<notin> set (prog # rest)" and "''<'' \<notin> set (prog # rest)"
    and "open_result sy name [O_WRONLY, O_CREAT, O_TRUNC] = fd" and "fd \<noteq> - 1"
    and "fds fd = None"
    and "exec_ok sy prog (prog # rest)"
  shows "fst (execute_command_child sy (map Some (prog # rest) @ Some ''>'' # Some name # post) fds)
           = Replaced prog (prog # rest)
       \<and> p_trace (snd (execute_command_child sy
                          (map Some (prog # rest) @ Some ''>'' # Some name # post) fds))
           = [Open (Some name) [O_WRONLY, O_CREAT, O_TRUNC] (Some mode_0644) fd,
              Dup2 fd STDOUT_FILENO, Close fd, Execvp (Some prog) (prog # rest)]
       \<and> p_args (snd (execute_command_child sy
                         (map Some (prog # rest) @ Some ''>'' # Some name # post) fds))
           = map Some (prog # rest) @ None # Some name # post
       \<and> p_fds (snd (execute_command_child sy
                        (map Some (prog # rest) @ Some ''>'' # Some name # post) fds)) STDIN_FILENO
           = fds STDIN_FILENO
       \<and> (fd \<noteq> STDOUT_FILENO \<longrightarrow>
            p_fds (snd (execute_command_child sy
                     (map Some (prog # rest) @ Some ''>'' # Some name # post) fds)) STDOUT_FILENO
            = Some (OpenFile name [O_WRONLY, O_CREAT, O_TRUNC]))"
proof -
  let ?args = "map Some (prog # rest) @ Some ''>'' # Some name # post"
  let ?wr = "[O_WRONLY, O_CREAT, O_TRUNC]"
  let ?p1 = "\<lparr>p_args = map Some (prog # rest) @ None # Some name # post,
              p_fds = fds(fd \<mapsto> OpenFile name ?wr),
              p_trace = [] @ [Open (Some name) ?wr (Some mode_0644) fd]\<rparr>"
  let ?p2 = "\<lparr>p_args = map Some (prog # rest) @ None # Some name # post,
              p_fds = (fds(fd \<mapsto> OpenFile name ?wr, STDOUT_FILENO \<mapsto> OpenFile name ?wr))(fd := None),
              p_trace = [Open (Some name) ?wr (Some mode_0644) fd, Dup2 fd STDOUT_FILENO, Close fd]\<rparr>"
  from output_scan_opens [of "prog # rest" sy name post fds "[]"] assms
  have o: "output_scan sy \<lparr>p_args = ?args, p_fds = fds, p_trace = []\<rparr> = Inr (fd, ?p1)"
    by simp
  have b: "bind_fd fd STDOUT_FILENO ?p1 = ?p2"
    using assms(4) by (simp add: bind_fd_def do_dup2_def do_close_def emit_def Let_def)
  have i: "input_scan sy ?p2 = Inr (- 1, ?p2)"
    using input_scan_none [OF assms(2), of sy "Some name # post"] by simp
  have e: "do_execvp sy ?p2
      = (Replaced prog (prog # rest), ?p2\<lparr>p_trace := p_trace ?p2 @ [Execvp (Some prog) (prog # rest)]\<rparr>)"
    using assms(6) by (simp add: do_execvp_def emit_def Let_def)
  have n: "bind_fd (- 1) STDIN_FILENO ?p2 = ?p2"
    by (simp add: bind_fd_def)
  have "execute_command_child sy ?args fds = do_execvp sy ?p2"
    unfolding execute_command_child_def o
    by (simp only: sum.case prod.case b i n)
  with e have "execute_command_child sy ?args fds
      = (Replaced prog (prog # rest), ?p2\<lparr>p_trace := p_trace ?p2 @ [Execvp (Some prog) (prog # rest)]\<rparr>)"
    by simp
  then show ?thesis using assms(5) by (auto simp: STDIN_FILENO_def STDOUT_FILENO_def)
qed


theorem output_redirect_hides_later_input_witness:
  "''>'' \<notin> set [''cmd''] \<and> ''<'' \<notin> set [''cmd'']
   \<and> open_result os_ok ''out'' [O_WRONLY, O_CREAT, O_TRUNC] = 3 \<and> (3 :: int) \<noteq> - 1
   \<and> std_fds 3 = None \<and> exec_ok os_ok ''cmd'' [''cmd'']
   \<and> fst (execute_command_child os_ok
            [Some ''cmd'', Some ''>'', Some ''out'', Some ''<'', Some ''in'', None] std_fds)
       = Replaced ''cmd'' [''cmd'']
   \<and> p_trace (snd (execute_command_child os_ok
            [Some ''cmd'', Some ''>'', Some ''out'', Some ''<'', Some ''in'', None] std_fds))
       = [Open (Some ''out'') [O_WRONLY, O_CREAT, O_TRUNC] (Some mode_0644) 3,
          Dup2 3 STDOUT_FILENO, Close 3, Execvp (Some ''cmd'') [''cmd'']]
   \<and> p_fds (snd (execute_command_child os_ok
            [Some ''cmd'', Some ''>'', Some ''out'', Some ''<'', Some ''in'', None] std_fds))
         STDIN_FILENO = Some Terminal
   \<and> p_fds (snd (execute_command_child os_ok
            [Some ''cmd'', Some ''>'', Some ''out'', Some ''<'', Some ''in'', None] std_fds))
         STDOUT_FILENO = Some (OpenFile ''out'' [O_WRONLY, O_CREAT, O_TRUNC])"
proof -
  have h1: "''>'' \<notin> set (''cmd'' # [])" and h2: "''<'' \<notin> set (''cmd'' # [])"
    and h3: "open_result os_ok ''out'' [O_WRONLY, O_CREAT, O_TRUNC] = 3"
    and h4: "(3 :: int) \<noteq> - 1" and h5: "std_fds 3 = None"
    and h6: "exec_ok os_ok ''cmd'' (''cmd'' # [])"
    by (simp_all add: os_ok_def std_fds_def)
  from output_redirect_hides_later_input
         [where fds = std_fds and post = "[Some ''<'', Some ''in'', None]", OF h1 h2 h3 h4 h5 h6]
  show ?thesis using h3 h5 h6 by (simp add: STDIN_FILENO_def STDOUT_FILENO_def std_fds_def)
qed

subsection \<open>The interpreter's globals and its waits\<close>

lemmas session_eval =
  main_step_def dispatch_def is_pipe_def split_line_def c_string_def
  LSH_TOK_BUFSIZE_def LSH_TOK_DELIM_def
  is_background_process_def bg_scan.simps execute_command_def execute_command_parent_def
  fg_wait_point_def fg_after_wait_def s_emit_def exit_shell_def MAX_BG_PROC_def
  cd_def pwd_def Let_def EXIT_SUCCESS_def EXIT_FAILURE_def prompt_def

text \<open>
  Claim C1 fails on the code: nothing assigns \<open>child_pid\<close>. While the interpreter is
  blocked on the foreground child 4242 of \<open>sleep 30\<close>, \<open>child_pid\<close> is still \<open>-1\<close> and
  the handler of the interrupt signal prints a prompt instead of signalling the
  child's process group.
\<close>

theorem sigint_during_foreground_wait_not_forwarded:
  "main_step world_ok (initial_session ''/'') (Line ''sleep 30'')
     = Continue (fg_after_wait no_usage
         (fg_wait_point 4242 (s_emit (Fork 4242) (s_emit (Printf prompt []) (initial_session ''/'')))))
   \<and> child_pid (fg_wait_point 4242
         (s_emit (Fork 4242) (s_emit (Printf prompt []) (initial_session ''/'')))) = - 1
   \<and> sigint_handler (fg_wait_point 4242
         (s_emit (Fork 4242) (s_emit (Printf prompt []) (initial_session ''/''))))
     = (initial_session ''/'')
         \<lparr>s_trace := [Printf prompt [], Fork 4242, Waitpid 4242,
                      Printf (CHR 0x0A # prompt) [], Fflush]\<rparr>"
  by (simp add: session_eval sigint_handler_def world_ok_def initial_session_def no_usage_def)

text \<open>
  Claim C2 fails on the code: nothing stores into \<open>bg_processes\<close>. After
  \<open>sleep 100 &\<close> has been launched as process 4242 the slot still holds \<open>-1\<close>, and
  \<open>exit\<close> prints the two totals and leaves without any \<open>kill\<close>.
\<close>

theorem background_job_not_signalled_at_exit:
  "main_step world_ok (initial_session ''/'') (Line ''sleep 100 &'')
     = Continue ((initial_session ''/'')
         \<lparr>s_trace := [Printf prompt [], Fork 4242,
                      Printf (''PID %d is sent to background'' @ [CHR 0x0A]) [4242]]\<rparr>)
   \<and> main_step world_ok
        ((initial_session ''/'')
         \<lparr>s_trace := [Printf prompt [], Fork 4242,
                      Printf (''PID %d is sent to background'' @ [CHR 0x0A]) [4242]]\<rparr>)
        (Line ''exit'')
     = ShellExit 0 ((initial_session ''/'')
         \<lparr>s_trace := [Printf prompt [], Fork 4242,
                      Printf (''PID %d is sent to background'' @ [CHR 0x0A]) [4242],
                      Printf prompt [], Getrusage,
                      Printf (''User time: %ld seconds'' @ [CHR 0x0A]) [0],
                      Printf (''Sys time: %ld seconds'' @ [CHR 0x0A]) [0],
                      Exit 0]\<rparr>)
   \<and> bg_processes (initial_session ''/'') = [- 1]"
  by (simp add: session_eval world_ok_def initial_session_def no_usage_def)

lemma child_pid_s_emit [simp]: "child_pid (s_emit c s) = child_pid s"
  by (simp add: s_emit_def)

lemma bg_processes_s_emit [simp]: "bg_processes (s_emit c s) = bg_processes s"
  by (simp add: s_emit_def)

lemma child_pid_parent [simp]:
  "child_pid (execute_command_parent pid background usage s) = child_pid s"
  by (simp add: execute_command_parent_def fg_wait_point_def fg_after_wait_def)

lemma bg_processes_parent [simp]:
  "bg_processes (execute_command_parent pid background usage s) = bg_processes s"
  by (simp add: execute_command_parent_def fg_wait_point_def fg_after_wait_def)

lemma child_pid_cd [simp]: "child_pid (cd f s path) = child_pid s"
  by (simp add: cd_def split: option.splits)

lemma bg_processes_cd [simp]: "bg_processes (cd f s path) = bg_processes s"
  by (simp add: cd_def split: option.splits)

lemma child_pid_pwd [simp]: "child_pid (pwd b s) = child_pid s"
  by (simp add: pwd_def)

lemma bg_processes_pwd [simp]: "bg_processes (pwd b s) = bg_processes s"
  by (simp add: pwd_def)

lemma child_pid_s_close [simp]: "child_pid (s_close fd s) = child_pid s"
  by (simp add: s_close_def)

lemma bg_processes_s_close [simp]: "bg_processes (s_close fd s) = bg_processes s"
  by (simp add: s_close_def)

lemma child_end_not_Continue [simp]: "child_end r \<noteq> Continue s"
  by (simp add: child_end_def split: ending.splits)

text \<open>
  No pass of the loop assigns \<open>child_pid\<close> or a background slot: both keep their
  initial value \<open>-1\<close> for the whole session.
\<close>

lemma execute_pipe_keeps_globals:
  "execute_pipe sy alloc pr k f1 f2 s c1 c2 = Continue s' \<Longrightarrow>
   child_pid s' = child_pid s \<and> bg_processes s' = bg_processes s"
  by (auto simp: execute_pipe_def Let_def split: option.splits prod.splits if_splits)

lemma dispatch_keeps_globals:
  "dispatch w s tokens = Continue s' \<Longrightarrow>
   child_pid s' = child_pid s \<and> bg_processes s' = bg_processes s"
  by (auto simp: dispatch_def execute_command_def split: option.splits prod.splits if_splits)

lemma main_step_keeps_globals:
  "main_step w s inp = Continue s' \<Longrightarrow>
   child_pid s' = child_pid s \<and> bg_processes s' = bg_processes s"
  by (auto simp: main_step_def Let_def split: input.splits option.splits prod.splits
           dest!: execute_pipe_keeps_globals dispatch_keeps_globals)


lemma run_lines_keeps_globals:
  "run_lines ps s = Some s' \<Longrightarrow> child_pid s' = child_pid s \<and> bg_processes s' = bg_processes s"
proof (induction ps arbitrary: s)
  case Nil
  then show ?case by simp
next
  case (Cons p ps)
  obtain w inp where p: "p = (w, inp)" by (cases p)
  from Cons.prems p obtain s1 where
    m: "main_step w s inp = Continue s1" and r: "run_lines ps s1 = Some s'"
    by (auto split: step.splits)
  from Cons.IH [OF r] main_step_keeps_globals [OF m] show ?case by simp
qed

lemma no_foreground_child_ever:
  assumes "run_lines ps (initial_session dir) = Some s"
  shows "s_trace (sigint_handler (fg_wait_point pid (s_emit (Fork pid) s)))
           = s_trace s @ [Fork pid, Waitpid pid, Printf (CHR 0x0A # prompt) [], Fflush]"
proof -
  from run_lines_keeps_globals [OF assms] have "child_pid s = - 1"
    by (simp add: initial_session_def)
  then show ?thesis
    by (simp add: sigint_handler_def fg_wait_point_def s_emit_def)
qed

lemma no_background_slot_ever:
  assumes "run_lines ps (initial_session dir) = Some s"
  shows "\<forall>c \<in> set (s_trace (exit_shell usage s)). c \<in> set (s_trace s) \<or> (\<forall>p sg. c \<noteq> Kill p sg)"
proof -
  from run_lines_keeps_globals [OF assms] have "bg_processes s = [- 1]"
    by (simp add: initial_session_def MAX_BG_PROC_def)
  then show ?thesis
    by (auto simp: exit_shell_def Let_def MAX_BG_PROC_def s_emit_def)
qed

lemma sint_add_no_overflow:
  fixes a b :: "64 word"
  assumes "0 \<le> sint b" and "sint a + sint b < 2 ^ 63"
  shows "sint (a + b) = sint a + sint b"
proof -
  have "- (2 ^ 63) \<le> sint a" using sint_ge [of a] by simp
  with assms have "- (2 ^ 63) \<le> sint a + sint b" by linarith
  with assms(2) show ?thesis
    by (simp add: sint_word_ariths signed_take_bit_int_eq_self)
qed

text \<open>Pending calls only shrink from the front, and a wait that has gone names a dead child.\<close>

lemma pstep_invariant:
  assumes "pstep\<^sup>*\<^sup>* (todo, dead) (todo', dead')"
  shows "dead \<subseteq> dead' \<and> (\<exists>gone. todo = gone @ todo' \<and> (\<forall>c. Waitpid c \<in> set gone \<longrightarrow> c \<in> dead'))"
  using assms
proof (induction "(todo, dead)" "(todo', dead')" arbitrary: todo' dead' rule: rtranclp.induct)
  case rtrancl_refl
  then show ?case by simp
next
  case (rtrancl_into_rtrancl b)
  obtain t1 d1 where b: "b = (t1, d1)" by (cases b)
  from rtrancl_into_rtrancl(2) [OF b] obtain gone where
    d: "dead \<subseteq> d1" and g: "todo = gone @ t1" and w: "\<forall>c. Waitpid c \<in> set gone \<longrightarrow> c \<in> d1"
    by blast
  from rtrancl_into_rtrancl(3) [unfolded b] show ?case
  proof (cases rule: pstep.cases)
    case children_terminate
    with d g w show ?thesis by auto
  next
    case (wait_returns c)
    with d g w have "todo = (gone @ [Waitpid c]) @ todo'"
      and "\<forall>x. Waitpid x \<in> set (gone @ [Waitpid c]) \<longrightarrow> x \<in> dead'" by auto
    with d wait_returns show ?thesis by blast
  next
    case (call_returns a)
    with d g w have "todo = (gone @ [a]) @ todo'"
      and "\<forall>x. Waitpid x \<in> set (gone @ [a]) \<longrightarrow> x \<in> dead'" by auto
    with d call_returns show ?thesis by blast
  qed
qed

lemma pstep_all_waited:
  assumes "pstep\<^sup>*\<^sup>* (todo, dead) ([], dead')" and "Waitpid c \<in> set todo"
  shows "c \<in> dead'"
  using pstep_invariant [OF assms(1)] assms(2) by auto

text \<open>
  Claim C7. For a foreground command whose \<open>fork\<close> succeeded, the parent's calls are
  \<open>waitpid\<close> on that child and then \<open>getrusage\<close>; it cannot get past them before the
  child has terminated; and each total afterwards is at least what it was, provided
  the seconds reported are not negative and the \<open>long\<close> addition does not overflow.
\<close>

theorem foreground_blocks_and_totals_grow:
  assumes "pid > 0"
    and "0 \<le> sint (ru_utime_sec usage)"
    and "sint (total_user_time s) + sint (ru_utime_sec usage) < 2 ^ 63"
    and "0 \<le> sint (ru_stime_sec usage)"
    and "sint (total_sys_time s) + sint (ru_stime_sec usage) < 2 ^ 63"
  shows "execute_command sy pid usage s args 0
           = Continue (execute_command_parent pid 0 usage (s_emit (Fork pid) s))
       \<and> s_trace (execute_command_parent pid 0 usage (s_emit (Fork pid) s))
           = s_trace s @ [Fork pid, Waitpid pid, Getrusage]
       \<and> (\<forall>dead dead'. pstep\<^sup>*\<^sup>* ([Waitpid pid, Getrusage], dead) ([], dead') \<longrightarrow> pid \<in> dead')
       \<and> sint (total_user_time s)
           \<le> sint (total_user_time (execute_command_parent pid 0 usage (s_emit (Fork pid) s)))
       \<and> sint (total_sys_time s)
           \<le> sint (total_sys_time (execute_command_parent pid 0 usage (s_emit (Fork pid) s)))"
proof (intro conjI allI impI)
  show "execute_command sy pid usage s args 0
           = Continue (execute_command_parent pid 0 usage (s_emit (Fork pid) s))"
    using assms(1) by (simp add: execute_command_def)
  show "s_trace (execute_command_parent pid 0 usage (s_emit (Fork pid) s))
           = s_trace s @ [Fork pid, Waitpid pid, Getrusage]"
    using assms(1)
    by (simp add: execute_command_parent_def fg_after_wait_def fg_wait_point_def s_emit_def)
next
  fix dead dead'
  assume "pstep\<^sup>*\<^sup>* ([Waitpid pid, Getrusage], dead) ([], dead')"
  then show "pid \<in> dead'" by (rule pstep_all_waited) simp
next
  have "total_user_time (execute_command_parent pid 0 usage (s_emit (Fork pid) s))
          = total_user_time s + ru_utime_sec usage"
    using assms(1)
    by (simp add: execute_command_parent_def fg_after_wait_def fg_wait_point_def s_emit_def)
  with sint_add_no_overflow [OF assms(2, 3)] assms(2)
  show "sint (total_user_time s)
          \<le> sint (total_user_time (execute_command_parent pid 0 usage (s_emit (Fork pid) s)))"
    by simp
next
  have "total_sys_time (execute_command_parent pid 0 usage (s_emit (Fork pid) s))
          = total_sys_time s + ru_stime_sec usage"
    using assms(1)
    by (simp add: execute_command_parent_def fg_after_wait_def fg_wait_point_def s_emit_def)
  with sint_add_no_overflow [OF assms(4, 5)] assms(4)
  show "sint (total_sys_time s)
          \<le> sint (total_sys_time (execute_command_parent pid 0 usage (s_emit (Fork pid) s)))"
    by simp
qed

theorem foreground_blocks_and_totals_grow_witness:
  "(4242 :: int) > 0
   \<and> 0 \<le> sint (ru_utime_sec \<lparr>ru_utime_sec = 2, ru_stime_sec = 1\<rparr>)
   \<and> sint (total_user_time (initial_session ''/''))
        + sint (ru_utime_sec \<lparr>ru_utime_sec = 2, ru_stime_sec = 1\<rparr>) < 2 ^ 63
   \<and> 0 \<le> sint (ru_stime_sec \<lparr>ru_utime_sec = 2, ru_stime_sec = 1\<rparr>)
   \<and> sint (total_sys_time (initial_session ''/''))
        + sint (ru_stime_sec \<lparr>ru_utime_sec = 2, ru_stime_sec = 1\<rparr>) < 2 ^ 63
   \<and> execute_command os_ok 4242 \<lparr>ru_utime_sec = 2, ru_stime_sec = 1\<rparr> (initial_session ''/'')
        [Some ''ls'', None] 0
      = Continue ((initial_session ''/'')
          \<lparr>total_user_time := 2, total_sys_time := 1,
           s_trace := [Fork 4242, Waitpid 4242, Getrusage]\<rparr>)
   \<and> pstep\<^sup>*\<^sup>* ([Waitpid 4242, Getrusage], {}) ([], {4242})
   \<and> (4242 :: int) \<in> {4242}
   \<and> sint (total_user_time (initial_session ''/'')) \<le> sint (2 :: 64 word)
   \<and> sint (total_sys_time (initial_session ''/'')) \<le> sint (1 :: 64 word)"
proof -
  let ?u = "\<lparr>ru_utime_sec = 2, ru_stime_sec = 1\<rparr>"
  let ?s = "initial_session ''/''"
  have h1: "(4242 :: int) > 0" by simp
  have h2: "0 \<le> sint (ru_utime_sec ?u)" by simp
  have h3: "sint (total_user_time ?s) + sint (ru_utime_sec ?u) < 2 ^ 63"
    by (simp add: initial_session_def)
  have h4: "0 \<le> sint (ru_stime_sec ?u)" by simp
  have h5: "sint (total_sys_time ?s) + sint (ru_stime_sec ?u) < 2 ^ 63"
    by (simp add: initial_session_def)
  have run: "pstep\<^sup>*\<^sup>* ([Waitpid 4242, Getrusage], {}) ([], {4242})"
  proof -
    have "pstep ([Waitpid 4242, Getrusage], {}) ([Waitpid 4242, Getrusage], {4242})"
      by (rule children_terminate) simp
    moreover have "pstep ([Waitpid 4242, Getrusage], {4242}) ([Getrusage], {4242})"
      by (rule wait_returns) simp
    moreover have "pstep ([Getrusage], {4242}) ([], {4242})"
      by (rule call_returns) simp
    ultimately show ?thesis by simp
  qed
  have p: "execute_command_parent 4242 0 ?u (s_emit (Fork 4242) ?s)
      = ?s\<lparr>total_user_time := 2, total_sys_time := 1,
            s_trace := [Fork 4242, Waitpid 4242, Getrusage]\<rparr>"
    by (simp add: execute_command_parent_def fg_after_wait_def fg_wait_point_def s_emit_def
        initial_session_def)
  note t = foreground_blocks_and_totals_grow [OF h1 h2 h3 h4 h5, of os_ok "[Some ''ls'', None]"]
  from t run have "(4242 :: int) \<in> {4242}" by blast
  with t p h1 h2 h3 h4 h5 run show ?thesis by simp
qed


text \<open>
  Claim C8. A line whose tokens are \<open>cd\<close> alone makes the loop print the message
  \<open>dragonshell: Expected argument to "cd"\<close>, a newline after it, and go on. A line \<open>cd path\<close> whose
  \<open>chdir\<close> fails makes it report \<open>dragonshell\<close> through \<open>perror\<close> and go on, with the
  working directory as it was.
\<close>

theorem cd_errors_keep_session:
  "(is_pipe ln = None \<and> split_line (w_alloc w) ln = Some (Some ''cd'' # None # rest) \<longrightarrow>
      main_step w s (Line ln)
        = Continue (s_emit (Printf (''dragonshell: Expected argument to '' @ [CHR 0x22] @ ''cd''
                                @ [CHR 0x22, CHR 0x0A]) [])
                      (s_emit (Printf prompt []) s)))
   \<and> (is_pipe ln = None \<and> split_line (w_alloc w) ln = Some (Some ''cd'' # Some path # rest)
        \<and> w_chdir w (s_cwd s) path = None \<longrightarrow>
      main_step w s (Line ln)
        = Continue (s_emit (Perror ''dragonshell'')
                      (s_emit (Chdir path) (s_emit (Printf prompt []) s)))
      \<and> s_cwd (s_emit (Perror ''dragonshell'')
                 (s_emit (Chdir path) (s_emit (Printf prompt []) s))) = s_cwd s)"
  by (simp add: main_step_def dispatch_def cd_def s_emit_def Let_def)

theorem cd_errors_keep_session_witness:
  "(is_pipe ''cd'' = None \<and> split_line (w_alloc world_ok) ''cd'' = Some (Some ''cd'' # None # []))
   \<and> main_step world_ok (initial_session ''/home'') (Line ''cd'')
       = Continue ((initial_session ''/home'')
           \<lparr>s_trace := [Printf prompt [],
                        Printf (''dragonshell: Expected argument to '' @ [CHR 0x22] @ ''cd''
                                @ [CHR 0x22, CHR 0x0A]) []]\<rparr>)
   \<and> (is_pipe ''cd /nonexistent'' = None
       \<and> split_line (w_alloc world_ok) ''cd /nonexistent''
           = Some (Some ''cd'' # Some ''/nonexistent'' # [None])
       \<and> w_chdir world_ok (s_cwd (initial_session ''/home'')) ''/nonexistent'' = None)
   \<and> main_step world_ok (initial_session ''/home'') (Line ''cd /nonexistent'')
       = Continue ((initial_session ''/home'')
           \<lparr>s_trace := [Printf prompt [], Chdir ''/nonexistent'', Perror ''dragonshell'']\<rparr>)
   \<and> s_cwd (initial_session ''/home'') = ''/home''"
proof -
  have a: "is_pipe ''cd'' = None"
    and b: "split_line (w_alloc world_ok) ''cd'' = Some (Some ''cd'' # None # [])"
    and c: "is_pipe ''cd /nonexistent'' = None"
    and d: "split_line (w_alloc world_ok) ''cd /nonexistent''
           = Some (Some ''cd'' # Some ''/nonexistent'' # [None])"
    and e: "w_chdir world_ok (s_cwd (initial_session ''/home'')) ''/nonexistent'' = None"
    by (simp_all add: is_pipe_def split_line_def c_string_def world_ok_def
        LSH_TOK_BUFSIZE_def LSH_TOK_DELIM_def)
  from cd_errors_keep_session
         [where ln = "''cd''" and w = world_ok and rest = "[]" and s = "initial_session ''/home''"]
       a b
  have f: "main_step world_ok (initial_session ''/home'') (Line ''cd'')
       = Continue (s_emit (Printf (''dragonshell: Expected argument to '' @ [CHR 0x22] @ ''cd''
                                @ [CHR 0x22, CHR 0x0A]) [])
                     (s_emit (Printf prompt []) (initial_session ''/home'')))"
    by blast
  from cd_errors_keep_session
         [where ln = "''cd /nonexistent''" and w = world_ok and rest = "[None]"
            and s = "initial_session ''/home''" and path = "''/nonexistent''"]
       c d e
  have g: "main_step world_ok (initial_session ''/home'') (Line ''cd /nonexistent'')
       = Continue (s_emit (Perror ''dragonshell'')
                      (s_emit (Chdir ''/nonexistent'') (s_emit (Printf prompt []) (initial_session ''/home''))))"
    by blast
  from f g a b c d e show ?thesis
    by (simp add: s_emit_def initial_session_def)
qed

subsection \<open>Failures and the session\<close>

lemma is_background_process_total:
  assumes "terminated args"
  shows "\<exists>b args'. is_background_process args = Some (b, args')"
proof (cases "''&'' \<in> set (visible args)")
  case True
  let ?pre = "takeWhile (\<lambda>t. t \<noteq> ''&'') (visible args)"
  from split_at_operator [OF True] obtain post where
    a: "args = map Some ?pre @ Some ''&'' # post" ..
  have "''&'' \<notin> set ?pre" by (auto dest: set_takeWhileD)
  then have "bg_scan ([] @ map Some ?pre @ Some ''&'' # post) (length ([] :: argv))
      = Some (1, [] @ map Some ?pre @ None # post)"
    by (intro bg_scan_found) simp_all
  with a have "is_background_process args = Some (1, map Some ?pre @ None # post)"
    by (simp add: is_background_process_def)
  then show ?thesis by blast
next
  case False
  from split_at_terminator [OF assms] obtain post where
    a: "args = map Some (visible args) @ None # post" ..
  from bg_scan_absent [OF False, of "[]" post] a
  show ?thesis by (simp add: is_background_process_def)
qed

lemma split_loop_total:
  "(\<forall>n. alloc n) \<Longrightarrow> split_loop alloc toks bufsize acc = Some (acc @ map Some toks @ [None])"
  by (induction toks arbitrary: bufsize acc) (simp_all add: Let_def)

lemma split_line_total:
  "(\<forall>n. alloc n) \<Longrightarrow>
   split_line alloc ln = Some (map Some (strtok_all (c_string ln) []) @ [None])"
  by (simp add: split_line_def split_loop_total)

text \<open>
  A program that is named but cannot be executed: the child reports \<open>dragonshell\<close>
  and exits with \<open>EXIT_FAILURE\<close>, in \<open>execute_command\<close> and in a pipeline child.
\<close>

lemma exec_failure_reported:
  assumes "terminated (p_args p)" and "hd (p_args p) = Some name"
    and "\<not> exec_ok sy name (visible (p_args p))"
  shows "do_execvp sy p
      = (Exited EXIT_FAILURE,
         p\<lparr>p_trace := p_trace p @ [Execvp (Some name) (visible (p_args p)),
                                   Perror ''dragonshell'', Exit EXIT_FAILURE]\<rparr>)"
  using assms by (simp add: do_execvp_def do_exit_def emit_def Let_def)

lemma command_exec_failure_reported:
  assumes "terminated args"
    and "before_op ''<'' (before_op ''>'' (visible args)) \<noteq> []"
    and "\<not> exec_ok sy (hd (before_op ''<'' (before_op ''>'' (visible args))))
                       (before_op ''<'' (before_op ''>'' (visible args)))"
  shows "fst (execute_command_child sy args fds) = Exited EXIT_FAILURE
       \<and> (\<exists>tr. p_trace (snd (execute_command_child sy args fds))
                  = tr @ [Perror ''dragonshell'', Exit EXIT_FAILURE])"
  using child_endings [OF assms(1), of sy fds] assms(2, 3) by auto

text \<open>A failed \<open>fork\<close> or \<open>pipe\<close> is reported and the pass of the loop goes on.\<close>

lemma fork_failure_reported:
  "pid < 0 \<Longrightarrow>
   execute_command sy pid usage s args background
     = Continue (s_emit (Perror ''dragonshell'') (s_emit (Fork pid) s))"
  by (simp add: execute_command_def execute_command_parent_def)

lemma pipe_failure_reported:
  "execute_pipe sy alloc None k f1 f2 s cmd1 cmd2
     = Continue (s_emit (Perror ''dragonshell: pipe failed'') (s_emit (Pipe_call None) s))"
  by (simp add: execute_pipe_def)

lemma pipeline_fork_failure_reported:
  "f1 < 0 \<Longrightarrow>
   execute_pipe sy alloc (Some (r, w)) k f1 f2 s cmd1 cmd2
     = Continue (s_emit (Perror ''dragonshell: fork failed'')
         (s_emit (Fork f1)
           ((s_emit (Pipe_call (Some (r, w))) s)
              \<lparr>s_fds := (s_fds s)(r \<mapsto> PipeRead k, w \<mapsto> PipeWrite k)\<rparr>)))"
  "0 < f1 \<Longrightarrow> f2 < 0 \<Longrightarrow>
   execute_pipe sy alloc (Some (r, w)) k f1 f2 s cmd1 cmd2
     = Continue (s_emit (Perror ''dragonshell: fork failed'')
         (s_emit (Fork f2) (s_emit (Fork f1)
           ((s_emit (Pipe_call (Some (r, w))) s)
              \<lparr>s_fds := (s_fds s)(r \<mapsto> PipeRead k, w \<mapsto> PipeWrite k)\<rparr>))))"
  by (simp_all add: execute_pipe_def Let_def)

lemma pipe_goes_on:
  "f1 \<noteq> 0 \<Longrightarrow> f2 \<noteq> 0 \<Longrightarrow> \<exists>s'. execute_pipe sy alloc pr k f1 f2 s cmd1 cmd2 = Continue s'"
  by (cases pr) (auto simp: execute_pipe_def Let_def)

text \<open>
  In the interpreter's own process, as long as the tokenizer's allocations succeed, a
  pass of the loop over a line goes on with the session, or is the explicit \<open>exit\<close>.
\<close>

lemma loop_goes_on:
  assumes "\<forall>n. w_alloc w n" and "w_fork1 w \<noteq> 0" and "w_fork2 w \<noteq> 0"
  shows "(\<exists>s'. main_step w s (Line ln) = Continue s')
       \<or> (\<exists>s'. main_step w s (Line ln) = ShellExit 0 s')
           \<and> hd (strtok_all (c_string ln) []) = ''exit''"
proof (cases "is_pipe ln")
  case (Some cs)
  obtain cmd1 cmd2 where "cs = (cmd1, cmd2)" by (cases cs)
  with Some assms pipe_goes_on [of "w_fork1 w" "w_fork2 w" "w_os w" "w_alloc w" "w_pipe w"
      "w_pipe_id w" "s_emit (Printf prompt []) s" cmd1 cmd2]
  show ?thesis by (auto simp: main_step_def Let_def)
next
  case None
  let ?s0 = "s_emit (Printf prompt []) s"
  let ?tokens = "map Some (strtok_all (c_string ln) []) @ [None]"
  from assms(1) have sl: "split_line (w_alloc w) ln = Some ?tokens"
    by (simp add: split_line_total)
  have m: "main_step w s (Line ln) = dispatch w ?s0 ?tokens"
    using None sl by (simp add: main_step_def Let_def)
  from is_background_process_total [of ?tokens] obtain b args' where
    bg: "is_background_process ?tokens = Some (b, args')" by auto
  show ?thesis
  proof (cases "strtok_all (c_string ln) []")
    case Nil
    with m show ?thesis by (simp add: dispatch_def)
  next
    case (Cons t ts)
    with m bg assms show ?thesis
      by (auto simp: dispatch_def execute_command_def)
  qed
qed

text \<open>
  Claim C6 fails on the code. When the allocation of the argument buffer fails in the
  interpreter's own call of \<open>split_line\<close> on the line \<open>ls\<close>, the interpreter prints
  \<open>lsh: allocation error\<close> and exits with \<open>EXIT_FAILURE\<close>: a failure of the taxonomy
  ends the session.
\<close>

theorem allocation_failure_ends_session:
  "main_step world_no_memory (initial_session ''/'') (Line ''ls'')
     = ShellExit EXIT_FAILURE
         ((initial_session ''/'')
            \<lparr>s_trace := [Printf prompt [],
                         Fprintf_stderr (''lsh: allocation error'' @ [CHR 0x0A]),
                         Exit EXIT_FAILURE]\<rparr>)
   \<and> EXIT_FAILURE \<noteq> 0"
  by (simp add: main_step_def is_pipe_def split_line_def c_string_def world_no_memory_def
      world_ok_def s_emit_def initial_session_def EXIT_FAILURE_def Let_def)

text \<open>
  A line without a program name, such as \<open>> out\<close>, leaves \<open>NULL\<close> in \<open>args[0]\<close>: the
  child is killed inside \<open>execvp\<close> and reports nothing.
\<close>

lemma empty_command_child_is_killed:
  "execute_command_child os_ok [Some ''>'', Some ''out'', None] std_fds
     = (Killed SIGSEGV,
        \<lparr>p_args = [None, Some ''out'', None],
         p_fds = (std_fds(1 \<mapsto> OpenFile ''out'' [O_WRONLY, O_CREAT, O_TRUNC]))(3 := None),
         p_trace = [Open (Some ''out'') [O_WRONLY, O_CREAT, O_TRUNC] (Some mode_0644) 3,
                    Dup2 3 STDOUT_FILENO, Close 3, Execvp None []]\<rparr>)"
  by (simp add: child_eval os_ok_def std_fds_def terminated_def fun_eq_iff)

subsection \<open>Pipelines\<close>

lemma p_fds_emit [simp]: "p_fds (emit c p) = p_fds p"
  by (simp add: emit_def)

lemma p_fds_do_execvp [simp]: "p_fds (snd (do_execvp sy p)) = p_fds p"
  by (simp add: do_execvp_def do_exit_def Let_def split: option.splits)

lemma p_fds_pipe_child_run [simp]: "p_fds (snd (pipe_child_run sy alloc cmd p)) = p_fds p"
  by (simp add: pipe_child_run_def do_exit_def split: option.splits)

lemma p_trace_pipe_child_run:
  "\<exists>more. p_trace (snd (pipe_child_run sy alloc cmd p)) = p_trace p @ more"
  by (simp add: pipe_child_run_def do_exit_def do_execvp_def emit_def Let_def split: option.splits)

lemma writer_setup_fds:
  assumes "r \<noteq> w" and "\<forall>fd. fds fd \<noteq> Some (PipeRead k)"
  shows "p_fds (writer_setup r w \<lparr>p_args = a, p_fds = fds(r \<mapsto> PipeRead k, w \<mapsto> PipeWrite k),
                                  p_trace = tr\<rparr>) fd \<noteq> Some (PipeRead k)"
  using assms by (simp add: writer_setup_def do_close_def do_dup2_def emit_def Let_def)

lemma reader_setup_fds:
  assumes "r \<noteq> w" and "\<forall>fd. fds fd \<noteq> Some (PipeWrite k)"
  shows "p_fds (reader_setup r w \<lparr>p_args = a, p_fds = fds(r \<mapsto> PipeRead k, w \<mapsto> PipeWrite k),
                                  p_trace = tr\<rparr>) fd \<noteq> Some (PipeWrite k)"
  using assms by (simp add: reader_setup_def do_close_def do_dup2_def emit_def Let_def)

lemma setup_traces:
  "p_trace (writer_setup r w \<lparr>p_args = a, p_fds = fds, p_trace = []\<rparr>)
     = [Close r, Dup2 w STDOUT_FILENO, Close w]"
  "p_trace (reader_setup r w \<lparr>p_args = a, p_fds = fds, p_trace = []\<rparr>)
     = [Close w, Dup2 r STDIN_FILENO, Close r]"
  by (simp_all add: writer_setup_def reader_setup_def do_close_def do_dup2_def emit_def Let_def
      split: option.splits)

lemma pipe_tail_run:
  assumes "c1 \<in> dead" 
  shows "pstep\<^sup>*\<^sup>* (pipe_parent_tail r w c1 c2, dead) ([], insert c2 dead)"
proof -
  have "pstep ([Close r, Close w, Waitpid c1, Waitpid c2], dead) ([Close w, Waitpid c1, Waitpid c2], dead)"
    by (rule call_returns) simp
  moreover have "pstep ([Close w, Waitpid c1, Waitpid c2], dead) ([Waitpid c1, Waitpid c2], dead)"
    by (rule call_returns) simp
  moreover have "pstep ([Waitpid c1, Waitpid c2], dead) ([Waitpid c2], dead)"
    using assms by (rule wait_returns)
  moreover have "pstep ([Waitpid c2], dead) ([Waitpid c2], insert c2 dead)"
    by (rule children_terminate) auto
  moreover have "pstep ([Waitpid c2], insert c2 dead) ([], insert c2 dead)"
    by (rule wait_returns) simp
  ultimately show ?thesis
    unfolding pipe_parent_tail_def by (meson rtranclp.rtrancl_into_rtrancl rtranclp.rtrancl_refl)
qed

lemma pipe_tail_run_second_first:
  assumes "c2 \<in> dead" 
  shows "pstep\<^sup>*\<^sup>* (pipe_parent_tail r w c1 c2, dead) ([], insert c1 dead)"
proof -
  have "pstep ([Close r, Close w, Waitpid c1, Waitpid c2], dead) ([Close w, Waitpid c1, Waitpid c2], dead)"
    by (rule call_returns) simp
  moreover have "pstep ([Close w, Waitpid c1, Waitpid c2], dead) ([Waitpid c1, Waitpid c2], dead)"
    by (rule call_returns) simp
  moreover have "pstep ([Waitpid c1, Waitpid c2], dead) ([Waitpid c1, Waitpid c2], insert c1 dead)"
    by (rule children_terminate) auto
  moreover have "pstep ([Waitpid c1, Waitpid c2], insert c1 dead) ([Waitpid c2], insert c1 dead)"
    by (rule wait_returns) simp
  moreover have "pstep ([Waitpid c2], insert c1 dead) ([], insert c1 dead)"
    using assms by (intro wait_returns) simp
  ultimately show ?thesis
    unfolding pipe_parent_tail_def by (meson rtranclp.rtrancl_into_rtrancl rtranclp.rtrancl_refl)
qed

text \<open>
  Claim C5. With a fresh pipe on two distinct descriptors: the writer child closes the
  read end, binds the write end to standard output and closes its copy, and holds no
  descriptor of the read end when it runs its command; the reader child does the same
  with the ends exchanged; the parent, once both children exist, closes both ends,
  then waits for the first child, then for the second, and holds neither end
  afterwards. The parent gets through these calls only when both children have
  terminated, and it does get through them whichever child terminates first.
\<close>

theorem pipeline_closes_ends_and_waits:
  assumes "r \<noteq> w"
    and "\<forall>fd. s_fds s fd \<noteq> Some (PipeRead k) \<and> s_fds s fd \<noteq> Some (PipeWrite k)"
  shows "execute_pipe sy alloc (Some (r, w)) k 0 f2 s cmd1 cmd2
           = child_end (pipe_child_run sy alloc cmd1
               (writer_setup r w \<lparr>p_args = [],
                  p_fds = (s_fds s)(r \<mapsto> PipeRead k, w \<mapsto> PipeWrite k), p_trace = []\<rparr>))
       \<and> (\<exists>more. p_trace (snd (pipe_child_run sy alloc cmd1
               (writer_setup r w \<lparr>p_args = [],
                  p_fds = (s_fds s)(r \<mapsto> PipeRead k, w \<mapsto> PipeWrite k), p_trace = []\<rparr>)))
             = [Close r, Dup2 w STDOUT_FILENO, Close w] @ more)
       \<and> (\<forall>fd. p_fds (snd (pipe_child_run sy alloc cmd1
               (writer_setup r w \<lparr>p_args = [],
                  p_fds = (s_fds s)(r \<mapsto> PipeRead k, w \<mapsto> PipeWrite k), p_trace = []\<rparr>))) fd
             \<noteq> Some (PipeRead k))
       \<and> (0 < f1 \<longrightarrow>
           execute_pipe sy alloc (Some (r, w)) k f1 0 s cmd1 cmd2
             = child_end (pipe_child_run sy alloc cmd2
                 (reader_setup r w \<lparr>p_args = [],
                    p_fds = (s_fds s)(r \<mapsto> PipeRead k, w \<mapsto> PipeWrite k), p_trace = []\<rparr>)))
       \<and> (\<exists>more. p_trace (snd (pipe_child_run sy alloc cmd2
               (reader_setup r w \<lparr>p_args = [],
                  p_fds = (s_fds s)(r \<mapsto> PipeRead k, w \<mapsto> PipeWrite k), p_trace = []\<rparr>)))
             = [Close w, Dup2 r STDIN_FILENO, Close r] @ more)
       \<and> (\<forall>fd. p_fds (snd (pipe_child_run sy alloc cmd2
               (reader_setup r w \<lparr>p_args = [],
                  p_fds = (s_fds s)(r \<mapsto> PipeRead k, w \<mapsto> PipeWrite k), p_trace = []\<rparr>))) fd
             \<noteq> Some (PipeWrite k))
       \<and> (0 < f1 \<and> 0 < f2 \<longrightarrow>
           (\<exists>s'. execute_pipe sy alloc (Some (r, w)) k f1 f2 s cmd1 cmd2 = Continue s'
              \<and> s_trace s' = s_trace s @ [Pipe_call (Some (r, w)), Fork f1, Fork f2]
                                @ pipe_parent_tail r w f1 f2
              \<and> (\<forall>fd. s_fds s' fd \<noteq> Some (PipeRead k) \<and> s_fds s' fd \<noteq> Some (PipeWrite k))))
       \<and> (\<forall>dead dead'. pstep\<^sup>*\<^sup>* (pipe_parent_tail r w f1 f2, dead) ([], dead')
             \<longrightarrow> f1 \<in> dead' \<and> f2 \<in> dead')
       \<and> pstep\<^sup>*\<^sup>* (pipe_parent_tail r w f1 f2, {f1}) ([], {f1, f2})
       \<and> pstep\<^sup>*\<^sup>* (pipe_parent_tail r w f1 f2, {f2}) ([], {f1, f2})"
proof -
  let ?fds = "(s_fds s)(r \<mapsto> PipeRead k, w \<mapsto> PipeWrite k)"
  let ?p0 = "\<lparr>p_args = [], p_fds = ?fds, p_trace = []\<rparr>"
  have c1: "execute_pipe sy alloc (Some (r, w)) k 0 f2 s cmd1 cmd2
           = child_end (pipe_child_run sy alloc cmd1 (writer_setup r w ?p0))"
    by (simp add: execute_pipe_def Let_def s_emit_def)
  have c2: "\<exists>more. p_trace (snd (pipe_child_run sy alloc cmd1 (writer_setup r w ?p0)))
             = [Close r, Dup2 w STDOUT_FILENO, Close w] @ more"
    using p_trace_pipe_child_run [of sy alloc cmd1 "writer_setup r w ?p0"]
    by (simp only: setup_traces)
  have c3: "\<forall>fd. p_fds (snd (pipe_child_run sy alloc cmd1 (writer_setup r w ?p0))) fd
             \<noteq> Some (PipeRead k)"
    using assms by (simp add: writer_setup_fds)
  have c4: "0 < f1 \<longrightarrow>
           execute_pipe sy alloc (Some (r, w)) k f1 0 s cmd1 cmd2
             = child_end (pipe_child_run sy alloc cmd2 (reader_setup r w ?p0))"
    by (simp add: execute_pipe_def Let_def s_emit_def)
  have c5: "\<exists>more. p_trace (snd (pipe_child_run sy alloc cmd2 (reader_setup r w ?p0)))
             = [Close w, Dup2 r STDIN_FILENO, Close r] @ more"
    using p_trace_pipe_child_run [of sy alloc cmd2 "reader_setup r w ?p0"]
    by (simp only: setup_traces)
  have c6: "\<forall>fd. p_fds (snd (pipe_child_run sy alloc cmd2 (reader_setup r w ?p0))) fd
             \<noteq> Some (PipeWrite k)"
    using assms by (simp add: reader_setup_fds)
  have c7: "0 < f1 \<and> 0 < f2 \<longrightarrow>
           (\<exists>s'. execute_pipe sy alloc (Some (r, w)) k f1 f2 s cmd1 cmd2 = Continue s'
              \<and> s_trace s' = s_trace s @ [Pipe_call (Some (r, w)), Fork f1, Fork f2]
                                @ pipe_parent_tail r w f1 f2
              \<and> (\<forall>fd. s_fds s' fd \<noteq> Some (PipeRead k) \<and> s_fds s' fd \<noteq> Some (PipeWrite k)))"
    using assms
    by (simp add: execute_pipe_def Let_def s_emit_def s_close_def pipe_parent_tail_def)
  have c8: "\<forall>dead dead'. pstep\<^sup>*\<^sup>* (pipe_parent_tail r w f1 f2, dead) ([], dead')
             \<longrightarrow> f1 \<in> dead' \<and> f2 \<in> dead'"
    by (auto simp: pipe_parent_tail_def dest: pstep_all_waited)
  have c9: "pstep\<^sup>*\<^sup>* (pipe_parent_tail r w f1 f2, {f1}) ([], {f1, f2})"
    using pipe_tail_run [of f1 "{f1}" r w f2] by (simp add: insert_commute)
  have c10: "pstep\<^sup>*\<^sup>* (pipe_parent_tail r w f1 f2, {f2}) ([], {f1, f2})"
    using pipe_tail_run_second_first [of f2 "{f2}" r w f1] by simp
  show ?thesis by (intro conjI c1 c2 c3 c4 c5 c6 c7 c8 c9 c10)
qed

theorem pipeline_closes_ends_and_waits_witness:
  "(3 :: int) \<noteq> 4
   \<and> (\<forall>fd. s_fds (initial_session ''/'') fd \<noteq> Some (PipeRead 0)
          \<and> s_fds (initial_session ''/'') fd \<noteq> Some (PipeWrite 0))
   \<and> ((0 :: int) < 4242 \<and> (0 :: int) < 4243)
   \<and> (\<exists>s'. execute_pipe os_ok (w_alloc world_ok) (Some (3, 4)) 0 4242 4243
               (initial_session ''/'') ''ls '' '' wc'' = Continue s'
          \<and> s_trace s' = [Pipe_call (Some (3, 4)), Fork 4242, Fork 4243,
                           Close 3, Close 4, Waitpid 4242, Waitpid 4243]
          \<and> s_fds s' 3 = None \<and> s_fds s' 4 = None)
   \<and> execute_pipe os_ok (w_alloc world_ok) (Some (3, 4)) 0 0 4243
        (initial_session ''/'') ''ls '' '' wc''
       = ChildEnd (Replaced ''ls'' [''ls''])
           \<lparr>p_args = [Some ''ls'', None],
            p_fds = std_fds(1 \<mapsto> PipeWrite 0),
            p_trace = [Close 3, Dup2 4 STDOUT_FILENO, Close 4, Execvp (Some ''ls'') [''ls'']]\<rparr>
   \<and> execute_pipe os_ok (w_alloc world_ok) (Some (3, 4)) 0 4242 0
        (initial_session ''/'') ''ls '' '' wc''
       = ChildEnd (Replaced ''wc'' [''wc''])
           \<lparr>p_args = [Some ''wc'', None],
            p_fds = std_fds(0 \<mapsto> PipeRead 0),
            p_trace = [Close 4, Dup2 3 STDIN_FILENO, Close 3, Execvp (Some ''wc'') [''wc'']]\<rparr>
   \<and> pstep\<^sup>*\<^sup>* (pipe_parent_tail 3 4 4242 4243, {4243}) ([], {4242, 4243})
   \<and> (4242 :: int) \<in> {4242, 4243} \<and> (4243 :: int) \<in> {4242, 4243}"
proof -
  let ?s = "initial_session ''/''"
  have h1: "(3 :: int) \<noteq> 4" by simp
  have h2: "\<forall>fd. s_fds ?s fd \<noteq> Some (PipeRead 0) \<and> s_fds ?s fd \<noteq> Some (PipeWrite 0)"
    by (simp add: initial_session_def std_fds_def)
  have h3: "(0 :: int) < 4242 \<and> (0 :: int) < 4243" by simp
  note t = pipeline_closes_ends_and_waits
    [OF h1 h2, where sy = os_ok and alloc = "w_alloc world_ok" and ?f1.0 = 4242 and ?f2.0 = 4243
       and ?cmd1.0 = "''ls ''" and ?cmd2.0 = "'' wc''"]
  from t h3 obtain s' where
    p: "execute_pipe os_ok (w_alloc world_ok) (Some (3, 4)) 0 4242 4243 ?s ''ls '' '' wc''
          = Continue s'"
    and tr: "s_trace s' = s_trace ?s @ [Pipe_call (Some (3, 4)), Fork 4242, Fork 4243]
                            @ pipe_parent_tail 3 4 4242 4243"
    by blast
  have fd: "s_fds s' 3 = None \<and> s_fds s' 4 = None"
    using p by (auto simp: execute_pipe_def Let_def s_emit_def s_close_def)
  have a: "\<exists>s'. execute_pipe os_ok (w_alloc world_ok) (Some (3, 4)) 0 4242 4243 ?s ''ls '' '' wc''
              = Continue s'
          \<and> s_trace s' = [Pipe_call (Some (3, 4)), Fork 4242, Fork 4243,
                           Close 3, Close 4, Waitpid 4242, Waitpid 4243]
          \<and> s_fds s' 3 = None \<and> s_fds s' 4 = None"
    using p tr fd by (simp add: pipe_parent_tail_def initial_session_def)
  have w: "execute_pipe os_ok (w_alloc world_ok) (Some (3, 4)) 0 0 4243 ?s ''ls '' '' wc''
       = ChildEnd (Replaced ''ls'' [''ls''])
           \<lparr>p_args = [Some ''ls'', None],
            p_fds = std_fds(1 \<mapsto> PipeWrite 0),
            p_trace = [Close 3, Dup2 4 STDOUT_FILENO, Close 4, Execvp (Some ''ls'') [''ls'']]\<rparr>"
    by (simp add: execute_pipe_def Let_def s_emit_def child_end_def pipe_child_run_def
        writer_setup_def split_line_def LSH_TOK_BUFSIZE_def LSH_TOK_DELIM_def world_ok_def
        do_close_def do_dup2_def emit_def do_execvp_def os_ok_def c_string_def
        initial_session_def std_fds_def STDOUT_FILENO_def fun_eq_iff)
  have r: "execute_pipe os_ok (w_alloc world_ok) (Some (3, 4)) 0 4242 0 ?s ''ls '' '' wc''
       = ChildEnd (Replaced ''wc'' [''wc''])
           \<lparr>p_args = [Some ''wc'', None],
            p_fds = std_fds(0 \<mapsto> PipeRead 0),
            p_trace = [Close 4, Dup2 3 STDIN_FILENO, Close 3, Execvp (Some ''wc'') [''wc'']]\<rparr>"
    by (simp add: execute_pipe_def Let_def s_emit_def child_end_def pipe_child_run_def
        reader_setup_def split_line_def LSH_TOK_BUFSIZE_def LSH_TOK_DELIM_def world_ok_def
        do_close_def do_dup2_def emit_def do_execvp_def os_ok_def c_string_def
        initial_session_def std_fds_def STDIN_FILENO_def fun_eq_iff)
  from t have run: "pstep\<^sup>*\<^sup>* (pipe_parent_tail 3 4 4242 4243, {4243}) ([], {4242, 4243})"
    by blast
  with t have "(4242 :: int) \<in> {4242, 4243} \<and> (4243 :: int) \<in> {4242, 4243}" by blast
  with h1 h2 h3 a w r run show ?thesis by blast
qed

end
